theory Spec2Isabelle
  imports Main "HOL-Library.Char_ord" "HOL-Library.List_Lexorder"
begin

section \<open>The store: the three tables of \<^verbatim>\<open>init_db\<close>\<close>

text \<open>
  A Python \<^verbatim>\<open>str\<close> is modelled as a \<^typ>\<open>string\<close>; a \<^typ>\<open>char\<close> stands for the code
  point of the same number, so the model covers text in the range U+0000..U+00FF.
  SQLite statements are taken to succeed once a connection is there, and a table is the
  list of its rows in rowid order. What can fail is \<^verbatim>\<open>get_db()\<close>: it reads \<^verbatim>\<open>flask.g\<close>,
  which raises \<^verbatim>\<open>RuntimeError\<close> when no application context is active.

  The column \<^verbatim>\<open>scheduled_messages.target_ids\<close> holds JSON text that only
  \<^verbatim>\<open>json.loads\<close> reads back; the model keeps the decoded value. The program itself
  writes a list of strings there (\<open>JList\<close>); the schema comment also allows the string
  \<^verbatim>\<open>'all'\<close> (\<open>JString\<close>), and \<open>JNull\<close> is the JSON text \<^verbatim>\<open>null\<close>. Other JSON
  values are outside the model.
\<close>

datatype json_value = JNull | JString string | JList "string list"

record user_row =
  u_id :: int
  u_chat_id :: string
  u_username :: string
  u_tags :: string

record scheduled_row =
  sm_id :: int
  sm_message_text :: string
  sm_target_ids :: json_value
  sm_media_url :: "string option"
  sm_media_type :: "string option"
  sm_send_time :: int
  sm_status :: string

record log_row =
  log_id :: int
  log_chat_id :: string
  log_message_id :: "int option"
  log_send_time :: int
  log_status :: string
  log_error_details :: "string option"

text \<open>
  Besides the three tables the store keeps, in \<^verbatim>\<open>sqlite_sequence\<close>, the largest rowid ever
  handed out for an \<^verbatim>\<open>AUTOINCREMENT\<close> key. The model carries it for the user table, where
  an insert that ends in \<^verbatim>\<open>ON CONFLICT ... DO UPDATE\<close> has used up a rowid.
\<close>

record database =
  telegram_users :: "user_row list"
  scheduled_messages :: "scheduled_row list"
  message_logs :: "log_row list"
  telegram_users_seq :: int

text \<open>
  The exceptions that leave the \<^verbatim>\<open>try\<close> blocks of the program: \<^verbatim>\<open>TypeError\<close> from
  \<^verbatim>\<open>set(None)\<close> and \<^verbatim>\<open>RuntimeError\<close> from \<^verbatim>\<open>flask.g\<close>. \<open>str_exn\<close> is \<^verbatim>\<open>str(e)\<close>
  (of Flask's message the first sentence).
\<close>

datatype exn = TypeError | RuntimeError

definition str_exn :: "exn \<Rightarrow> string" where
  "str_exn ex =
     (case ex of
        TypeError \<Rightarrow> ''object is not iterable''
      | RuntimeError \<Rightarrow> ''Working outside of application context.'')"

text \<open>
  \<^verbatim>\<open>UPDATE scheduled_messages SET status = ? WHERE id = ?\<close>
  (scheduler.py, \<^verbatim>\<open>update_message_status\<close>).
\<close>

definition update_message_status :: "int \<Rightarrow> string \<Rightarrow> database \<Rightarrow> database" where
  "update_message_status msg_id status db =
     db\<lparr>scheduled_messages :=
          map (\<lambda>r. if sm_id r = msg_id then r\<lparr>sm_status := status\<rparr> else r)
            (scheduled_messages db)\<rparr>"

text \<open>
  A new row gets the next rowid of an \<^verbatim>\<open>AUTOINCREMENT\<close> key: one more than the largest id
  in use (rows are never deleted by the program), and 1 in an empty table.
\<close>

definition next_rowid :: "int list \<Rightarrow> int" where
  "next_rowid ids = foldr max ids 0 + 1"

text \<open>
  \<^verbatim>\<open>log_message(chat_id, status, error_details=None)\<close> (app.py). Its first statement is
  \<^verbatim>\<open>get_db()\<close>: with no application context active (\<open>ctx\<close> false) the call raises and
  writes nothing. Otherwise one row is appended to \<^verbatim>\<open>message_logs\<close>; the column
  \<^verbatim>\<open>message_id\<close> is never given a value. The argument \<open>now\<close> is what
  \<^verbatim>\<open>int(time.time())\<close> returns at the call.
\<close>

definition log_message ::
  "bool \<Rightarrow> string \<Rightarrow> string \<Rightarrow> string option \<Rightarrow> int \<Rightarrow> database \<Rightarrow> exn + database" where
  "log_message ctx chat_id status error_details now db =
     (if \<not> ctx then Inl RuntimeError
      else Inr (db\<lparr>message_logs := message_logs db @
          [\<lparr>log_id = next_rowid (map log_id (message_logs db)),
            log_chat_id = chat_id,
            log_message_id = None,
            log_send_time = now,
            log_status = status,
            log_error_details = error_details\<rparr>]\<rparr>))"

text \<open>
  \<^verbatim>\<open>add_scheduled_message(text, target, media_url, media_type, send_time)\<close> (app.py):
  the status column takes its default \<^verbatim>\<open>'PENDING'\<close>.
\<close>

definition add_scheduled_message ::
  "string \<Rightarrow> string list \<Rightarrow> string \<Rightarrow> string \<Rightarrow> int \<Rightarrow> database \<Rightarrow> database" where
  "add_scheduled_message text target media_url media_type send_time db =
     db\<lparr>scheduled_messages := scheduled_messages db @
          [\<lparr>sm_id = next_rowid (map sm_id (scheduled_messages db)),
            sm_message_text = text,
            sm_target_ids = JList target,
            sm_media_url = Some media_url,
            sm_media_type = Some media_type,
            sm_send_time = send_time,
            sm_status = ''PENDING''\<rparr>]\<rparr>"

text \<open>
  \<^verbatim>\<open>get_pending_messages()\<close> (app.py): the rows with
  \<^verbatim>\<open>status = 'PENDING' AND send_time <= now\<close>, projected to the five selected columns.
\<close>

record pending_message =
  pm_id :: int
  pm_message_text :: string
  pm_target_ids :: json_value
  pm_media_url :: "string option"
  pm_media_type :: "string option"

definition select_columns :: "scheduled_row \<Rightarrow> pending_message" where
  "select_columns r =
     \<lparr>pm_id = sm_id r, pm_message_text = sm_message_text r, pm_target_ids = sm_target_ids r,
      pm_media_url = sm_media_url r, pm_media_type = sm_media_type r\<rparr>"

definition get_pending_messages :: "int \<Rightarrow> database \<Rightarrow> pending_message list" where
  "get_pending_messages now db =
     map select_columns
       (filter (\<lambda>r. sm_status r = ''PENDING'' \<and> sm_send_time r \<le> now) (scheduled_messages db))"

section \<open>The sender, the clock and the delivery loop\<close>

text \<open>
  The bot is an injected capability. A call is one of the three \<^verbatim>\<open>bot.send_*\<close> methods
  (always with \<^verbatim>\<open>parse_mode='HTML'\<close>); it returns, raises a \<^verbatim>\<open>TelegramError\<close> or raises
  another \<^verbatim>\<open>Exception\<close>, the string being \<^verbatim>\<open>str(e)\<close>.
\<close>

datatype send_request =
    SendPhoto string string string
  | SendDocument string string string
  | SendMessage string string

datatype send_outcome = Ok | TelegramError string | OtherException string

text \<open>
  What the program does not own is a state \<open>'e\<close> of the outside world with its
  operations: the bot (which may answer differently each time, so it moves the world on),
  \<^verbatim>\<open>int(time.time())\<close>, \<^verbatim>\<open>time.sleep(SCHEDULER_SLEEP_TIME)\<close>, the order in which
  iterating over \<^verbatim>\<open>set(xs)\<close> yields the elements of the list \<open>xs\<close>, and the parsing
  of a schedule time.
\<close>

text \<open>
  Lines 219, 220 and 230 of app.py: \<^verbatim>\<open>datetime.strptime(s, '%Y-%m-%dT%H:%M')\<close> and
  \<^verbatim>\<open>int(schedule_dt.timestamp())\<close> in the time zone of the process. \<open>Timestamp t shown\<close>
  is the result when both succeed, \<open>shown\<close> being
  \<^verbatim>\<open>schedule_dt.strftime('%Y-%m-%d %H:%M')\<close>; \<open>ValueError\<close> when one of them raises a
  \<^verbatim>\<open>ValueError\<close>, as \<^verbatim>\<open>strptime\<close> does on a string that is not of the format;
  \<open>OtherError\<close> with \<^verbatim>\<open>str(e)\<close> for any other exception.
\<close>

datatype schedule_time = ValueError | OtherError string | Timestamp int string

record 'e world =
  bot_send :: "send_request \<Rightarrow> 'e \<Rightarrow> send_outcome \<times> 'e"
  time_time :: "'e \<Rightarrow> int"
  time_sleep :: "'e \<Rightarrow> 'e"
  set_iter :: "string list \<Rightarrow> string list"
  strptime_timestamp :: "string \<Rightarrow> schedule_time"

text \<open>Python guarantees of a set only that each element of the list comes out once.\<close>

definition python_set :: "(string list \<Rightarrow> string list) \<Rightarrow> bool" where
  "python_set f = (\<forall>xs. distinct (f xs) \<and> set (f xs) = set xs)"

text \<open>Truth value of a nullable text column or of a string: NULL and \<^verbatim>\<open>''\<close> are false.\<close>

definition truthy :: "string option \<Rightarrow> bool" where
  "truthy v = (case v of None \<Rightarrow> False | Some s \<Rightarrow> s \<noteq> [])"

text \<open>The choice of the \<^verbatim>\<open>bot.send_*\<close> call inside the \<^verbatim>\<open>try\<close> block.\<close>

definition send_call :: "string option \<Rightarrow> string option \<Rightarrow> string \<Rightarrow> string \<Rightarrow> send_request" where
  "send_call media_url media_type message_text chat_id =
     (case media_url of
        None \<Rightarrow> SendMessage chat_id message_text
      | Some url \<Rightarrow>
          if truthy media_url \<and> truthy media_type then
            (if media_type = Some ''photo'' then SendPhoto chat_id url message_text
             else if media_type = Some ''document'' then SendDocument chat_id url message_text
             else SendMessage chat_id message_text)
          else SendMessage chat_id message_text)"

text \<open>\<^verbatim>\<open>needle in haystack\<close> on strings.\<close>

fun starts_with :: "string \<Rightarrow> string \<Rightarrow> bool" where
  "starts_with [] s = True"
| "starts_with (p # ps) [] = False"
| "starts_with (p # ps) (c # cs) = (p = c \<and> starts_with ps cs)"

fun str_contains :: "string \<Rightarrow> string \<Rightarrow> bool" where
  "str_contains needle [] = (needle = [])"
| "str_contains needle (c # cs) = (starts_with needle (c # cs) \<or> str_contains needle cs)"

text \<open>
  One turn of \<^verbatim>\<open>for chat_id in set(...)\<close>: the \<^verbatim>\<open>try\<close> block with its two handlers. The
  loop body is the same text in \<^verbatim>\<open>send_scheduled_message_async\<close> (scheduler.py) and in
  \<^verbatim>\<open>send_messages_async\<close> (app.py), up to where the message fields are read from. The
  loop state is \<^verbatim>\<open>sent_count\<close>, the store and the world; \<^verbatim>\<open>print\<close> is left out.
  \<open>ctx\<close> says whether an application context is active where the loop runs. An
  exception of \<^verbatim>\<open>log_message\<close> inside \<^verbatim>\<open>try\<close> is caught by \<^verbatim>\<open>except Exception\<close>; one
  raised inside a handler leaves the loop. The first component of the result is that
  exception, if any.
\<close>

definition deliver ::
  "'e world \<Rightarrow> bool \<Rightarrow> string option \<Rightarrow> string option \<Rightarrow> string \<Rightarrow> nat \<times> database \<times> 'e
     \<Rightarrow> string \<Rightarrow> exn option \<times> nat \<times> database \<times> 'e" where
  "deliver w ctx media_url media_type message_text st chat_id =
     (case st of (sent_count, db, e) \<Rightarrow>
        (case bot_send w (send_call media_url media_type message_text chat_id) e of
           (Ok, e') \<Rightarrow>
             (case log_message ctx chat_id ''SENT'' None (time_time w e') db of
                Inr db' \<Rightarrow> (None, sent_count + 1, db', e')
              | Inl ex \<Rightarrow>
                  (case log_message ctx chat_id ''FAILED'' (Some (str_exn ex)) (time_time w e') db of
                     Inr db' \<Rightarrow> (None, sent_count + 1, db', e')
                   | Inl ex' \<Rightarrow> (Some ex', sent_count + 1, db, e')))
         | (TelegramError msg, e') \<Rightarrow>
             (case log_message ctx chat_id
                     (if str_contains ''bot was blocked by the user'' msg then ''BLOCKED''
                      else ''FAILED'')
                     (Some msg) (time_time w e') db of
                Inr db' \<Rightarrow> (None, sent_count, db', e')
              | Inl ex \<Rightarrow> (Some ex, sent_count, db, e'))
         | (OtherException msg, e') \<Rightarrow>
             (case log_message ctx chat_id ''FAILED'' (Some msg) (time_time w e') db of
                Inr db' \<Rightarrow> (None, sent_count, db', e')
              | Inl ex \<Rightarrow> (Some ex, sent_count, db, e'))))"

text \<open>The \<^verbatim>\<open>for\<close> loop over the elements of the set: it ends at the first exception.\<close>

fun deliver_loop ::
  "'e world \<Rightarrow> bool \<Rightarrow> string option \<Rightarrow> string option \<Rightarrow> string \<Rightarrow> nat \<times> database \<times> 'e
     \<Rightarrow> string list \<Rightarrow> exn option \<times> nat \<times> database \<times> 'e" where
  "deliver_loop w ctx media_url media_type message_text st [] = (None, st)"
| "deliver_loop w ctx media_url media_type message_text st (chat_id # rest) =
     (case deliver w ctx media_url media_type message_text st chat_id of
        (None, st') \<Rightarrow> deliver_loop w ctx media_url media_type message_text st' rest
      | (Some ex, st') \<Rightarrow> (Some ex, st'))"

section \<open>The scheduler (scheduler.py)\<close>

text \<open>The last four lines of \<^verbatim>\<open>send_scheduled_message_async\<close>.\<close>

definition final_status :: "nat \<Rightarrow> nat \<Rightarrow> string" where
  "final_status sent_count len = (if sent_count > 0 \<or> len = 0 then ''SENT'' else ''FAILED'')"

text \<open>
  \<^verbatim>\<open>send_scheduled_message_async(message, bot)\<close>, run where an application context is
  active or not (\<open>ctx\<close>). \<^verbatim>\<open>set(None)\<close> raises a \<^verbatim>\<open>TypeError\<close> before anything is sent or
  written; iterating over a string yields its characters. An exception that leaves the
  loop leaves the function, before the status is updated. \<^verbatim>\<open>update_message_status\<close>
  opens an application context of its own.
\<close>

definition send_scheduled_message_async ::
  "'e world \<Rightarrow> bool \<Rightarrow> pending_message \<Rightarrow> database \<times> 'e \<Rightarrow> exn option \<times> database \<times> 'e" where
  "send_scheduled_message_async w ctx message st =
     (let run = (\<lambda>targets len.
            case deliver_loop w ctx (pm_media_url message) (pm_media_type message)
                   (pm_message_text message) (0, fst st, snd st) (set_iter w targets) of
              (None, sent_count, db, e) \<Rightarrow>
                (None, update_message_status (pm_id message) (final_status sent_count len) db, e)
            | (Some ex, sent_count, db, e) \<Rightarrow> (Some ex, db, e))
      in case pm_target_ids message of
           JNull \<Rightarrow> (Some TypeError, st)
         | JString s \<Rightarrow> run (map (\<lambda>c. [c]) s) (length s)
         | JList xs \<Rightarrow> run xs (length xs))"

text \<open>
  The body of \<^verbatim>\<open>for message in pending_messages\<close> in \<^verbatim>\<open>check_schedule_and_send\<close>
  (lines 76 to 82): the dispatch inside \<^verbatim>\<open>try\<close>, and the handler that marks the message
  failed. The \<^verbatim>\<open>with app.app_context()\<close> block of the loop ends on line 71, after the
  poll, so the dispatch of line 79 runs with no application context.
\<close>

definition process_message :: "'e world \<Rightarrow> database \<times> 'e \<Rightarrow> pending_message \<Rightarrow> database \<times> 'e" where
  "process_message w st message =
     (case send_scheduled_message_async w False message st of
        (None, st') \<Rightarrow> st'
      | (Some ex, db, e) \<Rightarrow> (update_message_status (pm_id message) ''FAILED'' db, e))"

text \<open>One turn of \<^verbatim>\<open>while True\<close>: poll, dispatch every due message, sleep.\<close>

definition scheduler_cycle :: "'e world \<Rightarrow> database \<times> 'e \<Rightarrow> database \<times> 'e" where
  "scheduler_cycle w st =
     (let pending_messages = get_pending_messages (time_time w (snd st)) (fst st);
          st' = foldl (process_message w) st pending_messages
      in (fst st', time_sleep w (snd st')))"

text \<open>
  \<^verbatim>\<open>check_schedule_and_send()\<close> returns at once without a bot token and never returns
  otherwise; \<open>n\<close> counts the turns of the loop that have been completed.
\<close>

fun check_schedule_and_send ::
  "string option \<Rightarrow> 'e world \<Rightarrow> nat \<Rightarrow> database \<times> 'e \<Rightarrow> database \<times> 'e" where
  "check_schedule_and_send BOT_TOKEN w 0 st = st"
| "check_schedule_and_send BOT_TOKEN w (Suc n) st =
     (if \<not> truthy BOT_TOKEN then st
      else check_schedule_and_send BOT_TOKEN w n (scheduler_cycle w st))"

section \<open>Strings, JSON text and \<^verbatim>\<open>LIKE\<close>\<close>

text \<open>\<^verbatim>\<open>str.isspace\<close> on U+0000..U+00FF, which is what \<^verbatim>\<open>str.strip()\<close> removes.\<close>

definition isspace :: "char \<Rightarrow> bool" where
  "isspace c = (let n = (of_char c :: nat) in
     (9 \<le> n \<and> n \<le> 13) \<or> (28 \<le> n \<and> n \<le> 32) \<or> n = 133 \<or> n = 160)"

definition strip :: "string \<Rightarrow> string" where
  "strip s = rev (dropWhile isspace (rev (dropWhile isspace s)))"

text \<open>\<^verbatim>\<open>str.lower()\<close> on U+0000..U+00FF.\<close>

definition lower_char :: "char \<Rightarrow> char" where
  "lower_char c = (let n = (of_char c :: nat) in
     if (65 \<le> n \<and> n \<le> 90) \<or> (192 \<le> n \<and> n \<le> 222 \<and> n \<noteq> 215) then char_of (n + 32) else c)"

definition lower :: "string \<Rightarrow> string" where
  "lower s = map lower_char s"

text \<open>\<^verbatim>\<open>s.split(',')\<close>: never empty, \<^verbatim>\<open>''.split(',') == ['']\<close>.\<close>

fun split_comma :: "string \<Rightarrow> string list" where
  "split_comma [] = [[]]"
| "split_comma (c # cs) =
     (if c = CHR '','' then [] # split_comma cs
      else (c # hd (split_comma cs)) # tl (split_comma cs))"

text \<open>\<^verbatim>\<open>s.replace('\r\n', ',')\<close>: left to right, without overlap.\<close>

fun replace_crlf :: "string \<Rightarrow> string" where
  "replace_crlf (c # d # cs) =
     (if c = CHR 0x0D \<and> d = CHR 0x0A then CHR '','' # replace_crlf cs
      else c # replace_crlf (d # cs))"
| "replace_crlf cs = cs"

text \<open>\<^verbatim>\<open>sep.join(xs)\<close> and \<^verbatim>\<open>str(n)\<close> for a count.\<close>

fun str_join :: "string \<Rightarrow> string list \<Rightarrow> string" where
  "str_join sep [] = []"
| "str_join sep [x] = x"
| "str_join sep (x # y # ys) = x @ sep @ str_join sep (y # ys)"

function str_nat :: "nat \<Rightarrow> string" where
  "str_nat n = (if n < 10 then [''0123456789'' ! n] else str_nat (n div 10) @ [''0123456789'' ! (n mod 10)])"
  by pat_completeness auto
termination
  by (relation "measure id") auto

declare str_nat.simps [simp del]

text \<open>
  \<^verbatim>\<open>json.dumps\<close> of a list of strings, with the default \<^verbatim>\<open>ensure_ascii=True\<close>: every
  character outside \<^verbatim>\<open>' '..'~'\<close> is escaped, and so are the quote and the backslash.
\<close>

definition hex4 :: "nat \<Rightarrow> string" where
  "hex4 n = map (\<lambda>d. ''0123456789abcdef'' ! d)
              [n div 4096 mod 16, n div 256 mod 16, n div 16 mod 16, n mod 16]"

definition json_escape :: "char \<Rightarrow> string" where
  "json_escape c =
     (if c = CHR 0x22 then [CHR 0x5C, CHR 0x22]
      else if c = CHR 0x5C then [CHR 0x5C, CHR 0x5C]
      else if c = CHR 0x0A then [CHR 0x5C, CHR ''n'']
      else if c = CHR 0x0D then [CHR 0x5C, CHR ''r'']
      else if c = CHR 0x09 then [CHR 0x5C, CHR ''t'']
      else if c = CHR 0x08 then [CHR 0x5C, CHR ''b'']
      else if c = CHR 0x0C then [CHR 0x5C, CHR ''f'']
      else if (of_char c :: nat) < 32 \<or> (of_char c :: nat) > 126
        then [CHR 0x5C, CHR ''u''] @ hex4 (of_char c)
      else [c])"

definition json_dumps_str :: "string \<Rightarrow> string" where
  "json_dumps_str s = [CHR 0x22] @ concat (map json_escape s) @ [CHR 0x22]"

definition json_dumps :: "string list \<Rightarrow> string" where
  "json_dumps xs = ''['' @ str_join '', '' (map json_dumps_str xs) @ '']''"

text \<open>
  SQLite's \<^verbatim>\<open>LIKE\<close> without \<^verbatim>\<open>ESCAPE\<close>: \<^verbatim>\<open>%\<close> matches any run of characters,
  \<^verbatim>\<open>_\<close> any one character, and the letters \<^verbatim>\<open>A..Z\<close> match their lower case.
\<close>

definition ascii_lower :: "char \<Rightarrow> char" where
  "ascii_lower c = (let n = (of_char c :: nat) in if 65 \<le> n \<and> n \<le> 90 then char_of (n + 32) else c)"

fun sql_like :: "string \<Rightarrow> string \<Rightarrow> bool" where
  "sql_like [] s = (s = [])"
| "sql_like (p # ps) [] = (p = CHR ''%'' \<and> sql_like ps [])"
| "sql_like (p # ps) (c # cs) =
     (if p = CHR ''%'' then sql_like ps (c # cs) \<or> sql_like (p # ps) cs
      else (p = CHR ''_'' \<or> ascii_lower p = ascii_lower c) \<and> sql_like ps cs)"

section \<open>The directory (app.py)\<close>

text \<open>
  \<^verbatim>\<open>add_user(chat_id, username, tags_list)\<close>: insert, or on a conflict of the unique
  \<^verbatim>\<open>chat_id\<close> overwrite name and tags of the row that is there. The tags are stored as
  the text \<^verbatim>\<open>json.dumps(tags_list)\<close>. SQLite draws the new rowid before it sees the
  conflict, so the sequence moves on in both cases.
\<close>

definition add_user :: "string \<Rightarrow> string \<Rightarrow> string list \<Rightarrow> database \<Rightarrow> database" where
  "add_user chat_id username tags_list db =
     (let tags_json = json_dumps tags_list;
          rowid = next_rowid (telegram_users_seq db # map u_id (telegram_users db))
      in if chat_id \<in> set (map u_chat_id (telegram_users db)) then
        db\<lparr>telegram_users :=
             map (\<lambda>r. if u_chat_id r = chat_id then r\<lparr>u_username := username, u_tags := tags_json\<rparr> else r)
               (telegram_users db),
           telegram_users_seq := rowid\<rparr>
      else
        db\<lparr>telegram_users := telegram_users db @
             [\<lparr>u_id = rowid, u_chat_id = chat_id, u_username = username, u_tags = tags_json\<rparr>],
           telegram_users_seq := rowid\<rparr>)"

text \<open>
  \<^verbatim>\<open>[user['chat_id'] for user in get_all_users()]\<close>: the rows come
  \<^verbatim>\<open>ORDER BY username\<close>.
\<close>

definition get_all_users :: "database \<Rightarrow> user_row list" where
  "get_all_users db = sort_key u_username (telegram_users db)"

text \<open>
  \<^verbatim>\<open>get_users_by_tag(tag)\<close>: the tag is pasted into the statement
  \<^verbatim>\<open>SELECT chat_id FROM telegram_users WHERE tags LIKE '%"{tag}"%'\<close>. A tag with a
  single quote or a NUL character makes that a different statement, which is not modelled:
  the result is \<open>None\<close> then.
\<close>

definition get_users_by_tag :: "string \<Rightarrow> database \<Rightarrow> string list option" where
  "get_users_by_tag tag db =
     (if CHR 0x27 \<in> set tag \<or> CHR 0x00 \<in> set tag then None
      else Some (map u_chat_id
             (filter (\<lambda>r. sql_like (''%'' @ [CHR 0x22] @ tag @ [CHR 0x22] @ ''%'') (u_tags r))
                (telegram_users db))))"

section \<open>The broadcast panel (app.py, \<^verbatim>\<open>broadcast\<close>)\<close>

text \<open>
  The request is seen after \<^verbatim>\<open>require_login\<close> has let it through. A missing key of
  \<^verbatim>\<open>request.form[...]\<close> ends the request with status 400 (\<open>BadRequest\<close>); \<open>ServerError\<close>
  is an answer with status 500. Of the rendered page the model
  keeps \<^verbatim>\<open>message\<close> and \<^verbatim>\<open>error\<close>; the listings read for the template write nothing.
\<close>

record request =
  req_method :: string
  req_form :: "string \<rightharpoonup> string"

datatype response =
    Page "string option" "string option"
  | BadRequest
  | ServerError
  | Unmodelled

text \<open>Line 212: the id list of target type \<^verbatim>\<open>multiple\<close>.\<close>

definition explicit_ids :: "string \<Rightarrow> string list" where
  "explicit_ids target_ids_input =
     map strip (filter (\<lambda>i. strip i \<noteq> []) (split_comma (replace_crlf target_ids_input)))"

text \<open>Step 1.1 (lines 205 to 213).\<close>

definition determine_recipients ::
  "string \<Rightarrow> string \<Rightarrow> (string \<rightharpoonup> string) \<Rightarrow> database \<Rightarrow> response + string list" where
  "determine_recipients target_type target_ids_input form db =
     (if target_type = ''all'' then Inr (map u_chat_id (get_all_users db))
      else if target_type = ''tag'' then
        (case form ''selected_tag'' of
           None \<Rightarrow> Inl BadRequest
         | Some selected_tag \<Rightarrow>
             (case get_users_by_tag selected_tag db of
                None \<Rightarrow> Inl Unmodelled
              | Some ids \<Rightarrow> Inr ids))
      else if target_type = ''multiple'' \<and> target_ids_input \<noteq> [] then
        Inr (explicit_ids target_ids_input)
      else Inr [])"

text \<open>
  Steps 1.2 and 1.3 (lines 216 to 280). The handler runs inside the request, where an
  application context is active. \<^verbatim>\<open>asyncio.run\<close> runs the loop; on a \<^verbatim>\<open>RuntimeError\<close> the
  handler runs it once more, with \<^verbatim>\<open>sent_count\<close> as it stands; any other exception, or a
  second one, ends the request with status 500.
\<close>

definition schedule_or_send ::
  "'e world \<Rightarrow> string \<Rightarrow> string list \<Rightarrow> string \<Rightarrow> string option \<Rightarrow> string \<Rightarrow> string
     \<Rightarrow> database \<times> 'e \<Rightarrow> response \<times> database \<times> 'e" where
  "schedule_or_send w message_text recipients send_type schedule_time_str media_url media_type st =
     (if send_type = ''scheduled'' \<and> truthy schedule_time_str then
        (case strptime_timestamp w (case schedule_time_str of None \<Rightarrow> [] | Some v \<Rightarrow> v) of
           Timestamp send_timestamp shown \<Rightarrow>
             (Page (Some (''Message successfully scheduled for '' @ shown @ ''.'')) None,
              add_scheduled_message message_text recipients media_url media_type send_timestamp (fst st),
              snd st)
         | ValueError \<Rightarrow>
             (Page None
                (Some ''Invalid schedule time format. Please use the YYYY-MM-DD HH:MM format.''),
              st)
         | OtherError e \<Rightarrow> (Page None (Some (''Failed to schedule message: '' @ e)), st))
      else if recipients \<noteq> [] then
        (case deliver_loop w True (Some media_url) (Some media_type) message_text
                (0, fst st, snd st) (set_iter w recipients) of
           (None, sent_count, st') \<Rightarrow>
             (Page (Some (''Message successfully sent to '' @ str_nat sent_count @ '' recipient(s).''))
                None,
              st')
         | (Some ex, sent_count, st') \<Rightarrow>
             (if ex = RuntimeError then
                (case deliver_loop w True (Some media_url) (Some media_type) message_text
                        (sent_count, fst st', snd st') (set_iter w recipients) of
                   (None, sent_count', st'') \<Rightarrow>
                     (Page (Some (''Message successfully sent to '' @ str_nat sent_count'
                                  @ '' recipient(s).'')) None,
                      st'')
                 | (Some ex', sent_count', st'') \<Rightarrow> (ServerError, st''))
              else (ServerError, st')))
      else (Page None (Some ''No recipients specified for broadcasting.''), st))"

text \<open>\<^verbatim>\<open>request.form.get(key, '')\<close>.\<close>

definition form_get :: "(string \<rightharpoonup> string) \<Rightarrow> string \<Rightarrow> string" where
  "form_get form k = (case form k of None \<Rightarrow> [] | Some v \<Rightarrow> v)"

text \<open>Branch 1 of the handler (lines 193 to 280).\<close>

definition broadcast_message ::
  "'e world \<Rightarrow> (string \<rightharpoonup> string) \<Rightarrow> database \<times> 'e \<Rightarrow> response \<times> database \<times> 'e" where
  "broadcast_message w form st =
     (case form ''message_text'' of
        None \<Rightarrow> (BadRequest, st)
      | Some message_text \<Rightarrow>
     (case form ''target_type'' of
        None \<Rightarrow> (BadRequest, st)
      | Some target_type \<Rightarrow>
     (case form ''target_ids'' of
        None \<Rightarrow> (BadRequest, st)
      | Some target_ids \<Rightarrow>
     (case form ''send_type'' of
        None \<Rightarrow> (BadRequest, st)
      | Some send_type \<Rightarrow>
     (case determine_recipients target_type (strip target_ids) form (fst st) of
        Inl r \<Rightarrow> (r, st)
      | Inr recipients \<Rightarrow>
          schedule_or_send w message_text recipients send_type (form ''schedule_time'')
            (strip (form_get form ''media_url'')) (strip (form_get form ''media_type'')) st)))))"

text \<open>Branch 2 of the handler (lines 283 to 294): adding a user.\<close>

definition broadcast_add_id ::
  "(string \<rightharpoonup> string) \<Rightarrow> database \<times> 'e \<Rightarrow> response \<times> database \<times> 'e" where
  "broadcast_add_id form st =
     (case form ''new_chat_id'' of
        None \<Rightarrow> (BadRequest, st)
      | Some new_chat_id \<Rightarrow>
     (case form ''new_username'' of
        None \<Rightarrow> (BadRequest, st)
      | Some new_username_raw \<Rightarrow>
          (let new_id = strip new_chat_id;
               new_username =
                 (if strip new_username_raw \<noteq> [] then strip new_username_raw else ''User'');
               new_tags_str = strip (form_get form ''new_tags'');
               new_tags_list = map (\<lambda>tag. lower (strip tag))
                                 (filter (\<lambda>tag. strip tag \<noteq> []) (split_comma new_tags_str))
           in if new_id \<noteq> [] then
                (Page (Some ''User added/updated successfully.'') None,
                 add_user new_id new_username new_tags_list (fst st), snd st)
              else (Page None None, st))))"

definition broadcast ::
  "string option \<Rightarrow> 'e world \<Rightarrow> request \<Rightarrow> database \<times> 'e \<Rightarrow> response \<times> database \<times> 'e" where
  "broadcast BOT_TOKEN w request st =
     (if \<not> truthy BOT_TOKEN then (ServerError, st)
      else if req_method request = ''POST'' \<and> req_form request ''message_text'' \<noteq> None then
        broadcast_message w (req_form request) st
      else if req_method request = ''POST'' \<and> req_form request ''add_id'' \<noteq> None then
        broadcast_add_id (req_form request) st
      else (Page None None, st))"

section \<open>Observations used in the statements\<close>

text \<open>The status column of the scheduled message with a given id, if there is such a row.\<close>

definition message_status :: "int \<Rightarrow> database \<Rightarrow> string option" where
  "message_status i db = map_option sm_status (find (\<lambda>r. sm_id r = i) (scheduled_messages db))"

text \<open>
  The status and the detail that the three branches of the \<^verbatim>\<open>try\<close> statement log for
  an outcome of the bot call.
\<close>

definition outcome_status :: "send_outcome \<Rightarrow> string" where
  "outcome_status r =
     (case r of
        Ok \<Rightarrow> ''SENT''
      | TelegramError msg \<Rightarrow>
          (if str_contains ''bot was blocked by the user'' msg then ''BLOCKED'' else ''FAILED'')
      | OtherException msg \<Rightarrow> ''FAILED'')"

definition outcome_details :: "send_outcome \<Rightarrow> string option" where
  "outcome_details r =
     (case r of Ok \<Rightarrow> None | TelegramError msg \<Rightarrow> Some msg | OtherException msg \<Rightarrow> Some msg)"

text \<open>The table after a run of status updates: a row with one of the given ids gets the
  status that \<open>f\<close> names for its id.\<close>

definition set_statuses :: "int set \<Rightarrow> (int \<Rightarrow> string) \<Rightarrow> scheduled_row list \<Rightarrow> scheduled_row list" where
  "set_statuses ids f rows =
     map (\<lambda>r. if sm_id r \<in> ids then r\<lparr>sm_status := f (sm_id r)\<rparr> else r) rows"

text \<open>
  Whether the dispatch of a message raises where no application context is active: when
  the targets are null, and when there is a first recipient to send to.
\<close>

definition dispatch_raises :: "'e world \<Rightarrow> pending_message \<Rightarrow> bool" where
  "dispatch_raises w message =
     (case pm_target_ids message of
        JNull \<Rightarrow> True
      | JString s \<Rightarrow> set_iter w (map (\<lambda>c. [c]) s) \<noteq> []
      | JList xs \<Rightarrow> set_iter w xs \<noteq> [])"

section \<open>A small world and a small store for concrete runs\<close>

definition request_chat_id :: "send_request \<Rightarrow> string" where
  "request_chat_id r =
     (case r of SendPhoto c p t \<Rightarrow> c | SendDocument c d t \<Rightarrow> c | SendMessage c t \<Rightarrow> c)"

text \<open>
  A bot that times out for recipient 2, is blocked by recipient 4 and reaches everybody
  else; the state of this world is the list of the calls made to the bot so far. A clock
  that stands at 1000; a set that yields its elements in the order of \<^const>\<open>remdups\<close>; a
  parser that knows one date.
\<close>

definition demo_world :: "send_request list world" where
  "demo_world =
     \<lparr>bot_send = (\<lambda>r e.
          (if request_chat_id r = ''2'' then OtherException ''Timed out''
           else if request_chat_id r = ''4''
             then TelegramError ''Forbidden: bot was blocked by the user''
           else Ok, e @ [r])),
      time_time = (\<lambda>e. 1000),
      time_sleep = (\<lambda>e. e),
      set_iter = remdups,
      strptime_timestamp = (\<lambda>s.
          if s = ''2030-01-01T10:00'' then Timestamp 1893492000 ''2030-01-01 10:00''
          else ValueError)\<rparr>"

definition demo_row :: "int \<Rightarrow> json_value \<Rightarrow> int \<Rightarrow> string \<Rightarrow> scheduled_row" where
  "demo_row i targets t s =
     \<lparr>sm_id = i, sm_message_text = ''hi'', sm_target_ids = targets, sm_media_url = None,
      sm_media_type = None, sm_send_time = t, sm_status = s\<rparr>"

definition demo_log :: "int \<Rightarrow> string \<Rightarrow> string \<Rightarrow> string option \<Rightarrow> log_row" where
  "demo_log i c s d =
     \<lparr>log_id = i, log_chat_id = c, log_message_id = None, log_send_time = 1000,
      log_status = s, log_error_details = d\<rparr>"

definition demo_db :: "scheduled_row list \<Rightarrow> database" where
  "demo_db rows =
     \<lparr>telegram_users = [], scheduled_messages = rows, message_logs = [], telegram_users_seq = 0\<rparr>"

text \<open>
  A store with four scheduled messages: one whose targets are the JSON value null, one
  due with a repeated recipient, one for later, one already sent.
\<close>

definition demo_store :: database where
  "demo_store =
     demo_db [demo_row 1 JNull 5 ''PENDING'',
              demo_row 2 (JList [''7'', ''2'', ''7'']) 900 ''PENDING'',
              demo_row 3 (JList [''7'']) 2000 ''PENDING'',
              demo_row 4 (JList [''7'']) 1 ''SENT'']"

text \<open>Form data of some requests, and a directory with two users.\<close>

definition schedule_nobody_form :: "string \<rightharpoonup> string" where
  "schedule_nobody_form =
     map_of [(''message_text'', ''hi''), (''target_type'', ''multiple''), (''target_ids'', '' ''),
             (''send_type'', ''scheduled''), (''schedule_time'', ''2030-01-01T10:00'')]"

definition bad_time_form :: "string \<rightharpoonup> string" where
  "bad_time_form =
     map_of [(''message_text'', ''hi''), (''target_type'', ''multiple''), (''target_ids'', ''7, 2''),
             (''send_type'', ''scheduled''), (''schedule_time'', ''tomorrow'')]"

definition blank_time_form :: "string \<rightharpoonup> string" where
  "blank_time_form =
     map_of [(''message_text'', ''hi''), (''target_type'', ''multiple''), (''target_ids'', ''7''),
             (''send_type'', ''scheduled''), (''schedule_time'', '''')]"

definition demo_directory :: database where
  "demo_directory =
     add_user ''2'' ''Bob'' [''team-a''] (add_user ''1'' ''Ann'' [''team_a''] (demo_db []))"

text \<open>
  A store with four pending messages: one to a recipient the bot reaches, one to nobody,
  one whose targets are null, one for later.
\<close>

definition demo_queue :: database where
  "demo_queue =
     demo_db [demo_row 1 (JList [''7'']) 5 ''PENDING'',
              demo_row 2 (JList []) 6 ''PENDING'',
              demo_row 3 JNull 7 ''PENDING'',
              demo_row 4 (JList [''7'']) 2000 ''PENDING'']"

section \<open>The program as a transition system\<close>

text \<open>
  The panel and the scheduler are two processes on one store. The scheduler is either
  about to poll, or inside \<^verbatim>\<open>for message in pending_messages\<close> with the messages
  still to come (with none left it sleeps and polls again). A step of the whole program is a step
  of the scheduler or one request served by the panel. (The scheduler only enters its loop
  with a bot token.)
\<close>

datatype phase = Polling | Dispatching "pending_message list"

inductive step ::
  "string option \<Rightarrow> 'e world \<Rightarrow> database \<times> 'e \<times> phase \<Rightarrow> database \<times> 'e \<times> phase \<Rightarrow> bool"
  for BOT_TOKEN :: "string option" and w :: "'e world" where
  poll: "truthy BOT_TOKEN \<Longrightarrow>
     step BOT_TOKEN w (db, e, Polling)
       (db, e, Dispatching (get_pending_messages (time_time w e) db))"
| dispatch: "process_message w (db, e) message = (db', e') \<Longrightarrow>
     step BOT_TOKEN w (db, e, Dispatching (message # pending)) (db', e', Dispatching pending)"
| sleep: "step BOT_TOKEN w (db, e, Dispatching []) (db, time_sleep w e, Polling)"
| request: "broadcast BOT_TOKEN w req (db, e) = (page, db', e') \<Longrightarrow>
     step BOT_TOKEN w (db, e, ph) (db', e', ph)"

text \<open>\<^verbatim>\<open>id INTEGER PRIMARY KEY\<close>: no two scheduled messages share an id.\<close>

definition unique_ids :: "database \<Rightarrow> bool" where
  "unique_ids db = distinct (map sm_id (scheduled_messages db))"

text \<open>
  What is true of the store and of the messages the scheduler still holds from its last
  poll: their ids differ, and each is still pending in the store.
\<close>

fun system_inv :: "database \<times> 'e \<times> phase \<Rightarrow> bool" where
  "system_inv (db, e, Polling) = unique_ids db"
| "system_inv (db, e, Dispatching pending) =
     (unique_ids db \<and> distinct (map pm_id pending)
      \<and> list_all (\<lambda>m. message_status (pm_id m) db = Some ''PENDING'') pending)"

text \<open>
  The moves of one status column that the lifecycle allows: none, from pending to one of
  the two final values, and the appearance of a new pending message.
\<close>

definition status_step :: "string option \<Rightarrow> string option \<Rightarrow> bool" where
  "status_step a b =
     (b = a
      \<or> (a = Some ''PENDING'' \<and> (b = Some ''SENT'' \<or> b = Some ''FAILED''))
      \<or> (a = None \<and> b = Some ''PENDING''))"

text \<open>
  What one request of the panel can do to the table of scheduled messages: nothing, or
  append one pending row under the next free id.
\<close>

definition table_step :: "scheduled_row list \<Rightarrow> scheduled_row list \<Rightarrow> bool" where
  "table_step rows rows' =
     (rows' = rows
      \<or> (\<exists>row. rows' = rows @ [row] \<and> sm_id row = next_rowid (map sm_id rows)
                 \<and> sm_status row = ''PENDING''))"

section \<open>The tokens of an id list, in the words of the specification\<close>

text \<open>
  The specification describes the explicit id list as split at commas and newlines,
  trimmed, the empty tokens dropped. \<open>spec_explicit_ids\<close> reads a newline as the line feed
  character; \<open>tokens_comma_crlf\<close> reads it as the pair carriage return, line feed, which is
  what a browser submits for a line break in a form field.
\<close>

fun split_where :: "(char \<Rightarrow> bool) \<Rightarrow> string \<Rightarrow> string list" where
  "split_where sep [] = [[]]"
| "split_where sep (c # cs) =
     (if sep c then [] # split_where sep cs
      else (c # hd (split_where sep cs)) # tl (split_where sep cs))"

definition spec_explicit_ids :: "string \<Rightarrow> string list" where
  "spec_explicit_ids s =
     filter (\<lambda>t. t \<noteq> []) (map strip (split_where (\<lambda>c. c = CHR '','' \<or> c = CHR 0x0A) s))"

fun split_comma_crlf :: "string \<Rightarrow> string list" where
  "split_comma_crlf (c # d # cs) =
     (if c = CHR 0x0D \<and> d = CHR 0x0A then [] # split_comma_crlf cs
      else if c = CHR '','' then [] # split_comma_crlf (d # cs)
      else (c # hd (split_comma_crlf (d # cs))) # tl (split_comma_crlf (d # cs)))"
| "split_comma_crlf [c] = (if c = CHR '','' then [[], []] else [[c]])"
| "split_comma_crlf [] = [[]]"

definition tokens_comma_crlf :: "string \<Rightarrow> string list" where
  "tokens_comma_crlf s = filter (\<lambda>t. t \<noteq> []) (map strip (split_comma_crlf s))"

text \<open>The tokens of a text in which the line breaks have been replaced.\<close>

definition trimmed :: "string \<Rightarrow> string list" where
  "trimmed x = filter (\<lambda>t. t \<noteq> []) (map strip (split_comma x))"

section \<open>The status update touches the status column of one id only\<close>


section \<open>The delivery loop\<close>

lemma outcome_status_cases:
  "outcome_status r = ''SENT'' \<or> outcome_status r = ''FAILED'' \<or> outcome_status r = ''BLOCKED''"
  by (cases r) (simp_all add: outcome_status_def)

lemma outcome_status_SENT: "outcome_status r = ''SENT'' \<longleftrightarrow> r = Ok"
  by (cases r) (simp_all add: outcome_status_def)

text \<open>Inside an application context the loop body logs the outcome and goes on.\<close>

lemma deliver_in_context:
  "deliver w True mu mt mtext (n, db, e) c =
     (None,
      n + (if fst (bot_send w (send_call mu mt mtext c) e) = Ok then 1 else 0),
      db\<lparr>message_logs := message_logs db @
         [\<lparr>log_id = next_rowid (map log_id (message_logs db)),
           log_chat_id = c,
           log_message_id = None,
           log_send_time = time_time w (snd (bot_send w (send_call mu mt mtext c) e)),
           log_status = outcome_status (fst (bot_send w (send_call mu mt mtext c) e)),
           log_error_details = outcome_details (fst (bot_send w (send_call mu mt mtext c) e))\<rparr>]\<rparr>,
      snd (bot_send w (send_call mu mt mtext c) e))"
proof (cases "bot_send w (send_call mu mt mtext c) e")
  case (Pair r e')
  then show ?thesis
    by (cases r) (simp_all add: deliver_def log_message_def outcome_status_def outcome_details_def)
qed

text \<open>Outside one, the bot is called, nothing is written and \<^verbatim>\<open>RuntimeError\<close> leaves the loop.\<close>

lemma deliver_outside_context:
  "deliver w False mu mt mtext (n, db, e) c =
     (Some RuntimeError,
      n + (if fst (bot_send w (send_call mu mt mtext c) e) = Ok then 1 else 0),
      db,
      snd (bot_send w (send_call mu mt mtext c) e))"
proof (cases "bot_send w (send_call mu mt mtext c) e")
  case (Pair r e')
  then show ?thesis
    by (cases r) (simp_all add: deliver_def log_message_def)
qed

lemma deliver_loop_in_context:
  "\<exists>rows e'. deliver_loop w True mu mt mtext (n, db, e) cs =
       (None, n + length (filter (\<lambda>r. log_status r = ''SENT'') rows),
        db\<lparr>message_logs := message_logs db @ rows\<rparr>, e')
     \<and> map log_chat_id rows = cs
     \<and> (\<forall>r\<in>set rows. \<exists>e0. log_status r =
            outcome_status (fst (bot_send w (send_call mu mt mtext (log_chat_id r)) e0)))"
proof (induction cs arbitrary: n db e)
  case Nil
  have "deliver_loop w True mu mt mtext (n, db, e) [] =
       (None, n + length (filter (\<lambda>r. log_status r = ''SENT'') []),
        db\<lparr>message_logs := message_logs db @ []\<rparr>, e)"
    by simp
  then show ?case by fastforce
next
  case (Cons c cs)
  let ?r = "bot_send w (send_call mu mt mtext c) e"
  let ?row = "\<lparr>log_id = next_rowid (map log_id (message_logs db)),
           log_chat_id = c,
           log_message_id = None,
           log_send_time = time_time w (snd ?r),
           log_status = outcome_status (fst ?r),
           log_error_details = outcome_details (fst ?r)\<rparr>"
  let ?n1 = "n + (if fst ?r = Ok then 1 else 0)"
  let ?db1 = "db\<lparr>message_logs := message_logs db @ [?row]\<rparr>"
  obtain rows e' where f: "deliver_loop w True mu mt mtext (?n1, ?db1, snd ?r) cs =
       (None, ?n1 + length (filter (\<lambda>r. log_status r = ''SENT'') rows),
        ?db1\<lparr>message_logs := message_logs ?db1 @ rows\<rparr>, e')"
     and cs: "map log_chat_id rows = cs"
     and ss: "\<forall>r\<in>set rows. \<exists>e0. log_status r =
            outcome_status (fst (bot_send w (send_call mu mt mtext (log_chat_id r)) e0))"
    using Cons.IH[of ?n1 ?db1 "snd ?r"] by blast
  have A: "deliver_loop w True mu mt mtext (n, db, e) (c # cs) =
       (None, n + length (filter (\<lambda>r. log_status r = ''SENT'') (?row # rows)),
        db\<lparr>message_logs := message_logs db @ (?row # rows)\<rparr>, e')"
    using f by (simp add: deliver_in_context outcome_status_SENT)
  have B: "map log_chat_id (?row # rows) = c # cs"
    using cs by simp
  have "\<exists>e0. log_status ?row =
            outcome_status (fst (bot_send w (send_call mu mt mtext (log_chat_id ?row)) e0))"
    by (rule exI[of _ e]) simp
  then have C: "\<forall>r\<in>set (?row # rows). \<exists>e0. log_status r =
            outcome_status (fst (bot_send w (send_call mu mt mtext (log_chat_id r)) e0))"
    using ss by simp
  show ?case
    by (rule exI[of _ "?row # rows"], rule exI[of _ e'], intro conjI, rule A, rule B, rule C)
qed

lemma deliver_loop_outside_context:
  "deliver_loop w False mu mt mtext (n, db, e) (c # cs) =
     (Some RuntimeError,
      n + (if fst (bot_send w (send_call mu mt mtext c) e) = Ok then 1 else 0),
      db,
      snd (bot_send w (send_call mu mt mtext c) e))"
  by (simp add: deliver_outside_context)

section \<open>The dispatch of a scheduled message\<close>

lemma final_status_cases: "final_status n k = ''SENT'' \<or> final_status n k = ''FAILED''"
  by (simp add: final_status_def)

lemma dispatch_targets_outside_context:
  "(case deliver_loop w False mu mt mtext (0, db, e) cs of
      (None, sent_count, db', e') \<Rightarrow> (None, update_message_status i (final_status sent_count k) db', e')
    | (Some ex, sent_count, db', e') \<Rightarrow> (Some ex, db', e'))
   = (if cs = [] then (None, update_message_status i (final_status 0 k) db, e)
      else (Some RuntimeError, db, snd (bot_send w (send_call mu mt mtext (hd cs)) e)))"
proof (cases cs)
  case Nil
  then show ?thesis by simp
next
  case (Cons c rest)
  show ?thesis
    unfolding Cons deliver_loop_outside_context by simp
qed

text \<open>
  What the dispatch of line 79 does to a message: with null targets it raises at once;
  with no recipient it updates the status and returns; with a first recipient it calls the
  bot for that one, writes nothing and raises.
\<close>

lemma dispatch_outside_context:
  "\<exists>e'. send_scheduled_message_async w False m (db, e) =
      (if dispatch_raises w m then (Some (if pm_target_ids m = JNull then TypeError else RuntimeError), db, e')
       else (None, update_message_status (pm_id m)
                     (final_status 0 (case pm_target_ids m of JNull \<Rightarrow> 0 | JString s \<Rightarrow> length s
                                        | JList xs \<Rightarrow> length xs)) db, e))"
proof (cases "pm_target_ids m")
  case JNull
  then show ?thesis
    by (simp add: send_scheduled_message_async_def dispatch_raises_def)
next
  case (JString str)
  then show ?thesis
    by (auto simp: send_scheduled_message_async_def dispatch_raises_def
        dispatch_targets_outside_context)
next
  case (JList xs)
  then show ?thesis
    by (auto simp: send_scheduled_message_async_def dispatch_raises_def
        dispatch_targets_outside_context)
qed

lemma dispatch_raises_iff:
  "(\<exists>ex. fst (send_scheduled_message_async w False m st) = Some ex) \<longleftrightarrow> dispatch_raises w m"
proof -
  obtain db e where st: "st = (db, e)" by (cases st)
  show ?thesis
    using dispatch_outside_context[of w m db e] unfolding st
    by (cases "dispatch_raises w m") auto
qed

lemma process_message_effect:
  "\<exists>s e'. process_message w (db, e) m = (update_message_status (pm_id m) s db, e')
     \<and> (s = ''SENT'' \<or> s = ''FAILED'')
     \<and> (dispatch_raises w m \<longrightarrow> s = ''FAILED'')"
proof -
  obtain e' where d: "send_scheduled_message_async w False m (db, e) =
      (if dispatch_raises w m then (Some (if pm_target_ids m = JNull then TypeError else RuntimeError), db, e')
       else (None, update_message_status (pm_id m)
                     (final_status 0 (case pm_target_ids m of JNull \<Rightarrow> 0 | JString s \<Rightarrow> length s
                                        | JList xs \<Rightarrow> length xs)) db, e))"
    using dispatch_outside_context[of w m db e] by blast
  let ?k = "case pm_target_ids m of JNull \<Rightarrow> 0 | JString s \<Rightarrow> length s | JList xs \<Rightarrow> length xs"
  show ?thesis
  proof (cases "dispatch_raises w m")
    case True
    then have "process_message w (db, e) m = (update_message_status (pm_id m) ''FAILED'' db, e')"
      using d by (simp add: process_message_def)
    then show ?thesis by blast
  next
    case False
    then have "process_message w (db, e) m = (update_message_status (pm_id m) (final_status 0 ?k) db, e)"
      using d by (simp add: process_message_def)
    moreover have "final_status 0 ?k = ''SENT'' \<or> final_status 0 ?k = ''FAILED''"
      by (rule final_status_cases)
    moreover have "dispatch_raises w m \<longrightarrow> final_status 0 ?k = ''FAILED''"
      using False by simp
    ultimately show ?thesis by (intro exI conjI)
  qed
qed

section \<open>The dispatch of the panel\<close>

lemma python_set_Nil: "python_set f \<Longrightarrow> f [] = []"
  unfolding python_set_def by (drule spec[of _ "[]"]) simp

lemma python_set_card: "python_set f \<Longrightarrow> length (f xs) = card (set xs)"
  by (metis python_set_def distinct_card)

lemma immediate_send:
  assumes "\<not> (send_type = ''scheduled'' \<and> truthy schedule_time_str)" and "xs \<noteq> []"
  shows "\<exists>rows e'. schedule_or_send w mtext xs send_type schedule_time_str mu mt (db, e) =
       (Page (Some (''Message successfully sent to ''
                 @ str_nat (length (filter (\<lambda>r. log_status r = ''SENT'') rows)) @ '' recipient(s).'')) None,
        db\<lparr>message_logs := message_logs db @ rows\<rparr>, e')
     \<and> map log_chat_id rows = set_iter w xs
     \<and> (\<forall>r\<in>set rows. \<exists>e0. log_status r = outcome_status (fst (bot_send w
            (send_call (Some mu) (Some mt) mtext (log_chat_id r)) e0)))"
proof -
  obtain rows e' where
    a: "deliver_loop w True (Some mu) (Some mt) mtext (0, db, e) (set_iter w xs) =
       (None, 0 + length (filter (\<lambda>r. log_status r = ''SENT'') rows),
        db\<lparr>message_logs := message_logs db @ rows\<rparr>, e')"
    and b: "map log_chat_id rows = set_iter w xs"
    and c: "\<forall>r\<in>set rows. \<exists>e0. log_status r = outcome_status (fst (bot_send w
            (send_call (Some mu) (Some mt) mtext (log_chat_id r)) e0))"
    using deliver_loop_in_context[of w "Some mu" "Some mt" mtext 0 db e "set_iter w xs"] by blast
  have A: "schedule_or_send w mtext xs send_type schedule_time_str mu mt (db, e) =
       (Page (Some (''Message successfully sent to ''
                 @ str_nat (length (filter (\<lambda>r. log_status r = ''SENT'') rows)) @ '' recipient(s).'')) None,
        db\<lparr>message_logs := message_logs db @ rows\<rparr>, e')"
    using assms a unfolding schedule_or_send_def by auto
  show ?thesis
    by (rule exI[of _ rows], rule exI[of _ e'], intro conjI, rule A, rule b, rule c)
qed

lemma immediate_no_recipients:
  assumes "\<not> (send_type = ''scheduled'' \<and> truthy schedule_time_str)"
  shows "schedule_or_send w mtext [] send_type schedule_time_str mu mt st =
       (Page None (Some ''No recipients specified for broadcasting.''), st)"
  using assms unfolding schedule_or_send_def by auto

text \<open>
  Inside the request every recipient of the list is attempted and logged once, whatever
  the bot answers for the others.
\<close>

lemma immediate_send_covers_recipients:
  assumes "python_set (set_iter w)"
    and "\<not> (send_type = ''scheduled'' \<and> truthy schedule_time_str)" and "xs \<noteq> []"
  shows "\<exists>page db' e' rows.
      schedule_or_send w mtext xs send_type schedule_time_str mu mt (db, e) = (page, db', e')
      \<and> message_logs db' = message_logs db @ rows
      \<and> length rows = card (set xs)
      \<and> set (map log_chat_id rows) = set xs
      \<and> distinct (map log_chat_id rows)"
proof -
  obtain rows e' where a: "schedule_or_send w mtext xs send_type schedule_time_str mu mt (db, e) =
       (Page (Some (''Message successfully sent to ''
                 @ str_nat (length (filter (\<lambda>r. log_status r = ''SENT'') rows)) @ '' recipient(s).'')) None,
        db\<lparr>message_logs := message_logs db @ rows\<rparr>, e')"
    and b: "map log_chat_id rows = set_iter w xs"
    using immediate_send[OF assms(2,3), of w mtext mu mt db e] by blast
  have l: "message_logs (db\<lparr>message_logs := message_logs db @ rows\<rparr>) = message_logs db @ rows"
    by simp
  have "length (map log_chat_id rows) = card (set xs)"
    unfolding b by (rule python_set_card[OF assms(1)])
  then have n: "length rows = card (set xs)" by simp
  have s: "set (map log_chat_id rows) = set xs" and d: "distinct (map log_chat_id rows)"
    unfolding b using assms(1) by (simp_all add: python_set_def)
  show ?thesis
    using a l n s d by blast
qed

section \<open>Concrete dispatches\<close>

lemma python_set_remdups: "python_set remdups"
  by (simp add: python_set_def)

lemma demo_world_set: "python_set (set_iter demo_world)"
  by (simp add: demo_world_def python_set_remdups)

lemmas demo_defs =
  demo_world_def demo_db_def demo_row_def demo_log_def select_columns_def request_chat_id_def
  send_call_def truthy_def log_message_def next_rowid_def update_message_status_def
  final_status_def deliver_def

text \<open>
  C1. A pending message to one recipient whom the bot reaches, in a turn of the scheduler
  loop: the message is polled, the bot is called once and answers, the logging of line 41
  finds no application context and raises, and so does the logging in the handler; no log
  row is written, the dispatch raises \<^verbatim>\<open>RuntimeError\<close> before line 54, and the loop marks
  the message FAILED although a send has succeeded.
\<close>

theorem scheduled_dispatch_fails_after_successful_send:
  "fst (bot_send demo_world (SendMessage ''7'' ''hi'') []) = Ok
   \<and> get_pending_messages 1000 (demo_db [demo_row 1 (JList [''7'']) 5 ''PENDING''])
       = [select_columns (demo_row 1 (JList [''7'']) 5 ''PENDING'')]
   \<and> send_scheduled_message_async demo_world False
        (select_columns (demo_row 1 (JList [''7'']) 5 ''PENDING''))
        (demo_db [demo_row 1 (JList [''7'']) 5 ''PENDING''], [])
       = (Some RuntimeError, demo_db [demo_row 1 (JList [''7'']) 5 ''PENDING''],
          [SendMessage ''7'' ''hi''])
   \<and> scheduler_cycle demo_world (demo_db [demo_row 1 (JList [''7'']) 5 ''PENDING''], [])
       = (demo_db [demo_row 1 (JList [''7'']) 5 ''FAILED''], [SendMessage ''7'' ''hi''])"
  by (simp add: scheduler_cycle_def get_pending_messages_def process_message_def
      send_scheduled_message_async_def demo_defs)

text \<open>
  C3. The scheduled dispatch of the target list A, A, B: the bot is called for A, no log
  row is written and the dispatch raises. The same list sent by the panel writes two log
  rows, one for A and one for B, after one call of the bot for each.
\<close>

theorem scheduled_dispatch_writes_no_log_row:
  "send_scheduled_message_async demo_world False
        (select_columns (demo_row 1 (JList [''A'', ''A'', ''B'']) 5 ''PENDING''))
        (demo_db [demo_row 1 (JList [''A'', ''A'', ''B'']) 5 ''PENDING''], [])
       = (Some RuntimeError, demo_db [demo_row 1 (JList [''A'', ''A'', ''B'']) 5 ''PENDING''],
          [SendMessage ''A'' ''hi''])
   \<and> schedule_or_send demo_world ''hi'' [''A'', ''A'', ''B''] ''now'' None [] [] (demo_db [], [])
       = (Page (Some ''Message successfully sent to 2 recipient(s).'') None,
          (demo_db [])\<lparr>message_logs := [demo_log 1 ''A'' ''SENT'' None, demo_log 2 ''B'' ''SENT'' None]\<rparr>,
          [SendMessage ''A'' ''hi'', SendMessage ''B'' ''hi''])"
  by (simp add: schedule_or_send_def send_scheduled_message_async_def demo_defs str_nat.simps)

text \<open>
  C4. The scheduled dispatch of the target list 1, 2, 3 with the bot that fails for 2: the
  bot is called for 1, the dispatch raises to the loop, and the recipients 2 and 3 are not
  attempted. The same list sent by the panel attempts all three, logs SENT, FAILED and
  SENT, and reports two successful sends.
\<close>

theorem scheduled_dispatch_stops_at_first_recipient:
  "send_scheduled_message_async demo_world False
        (select_columns (demo_row 1 (JList [''1'', ''2'', ''3'']) 5 ''PENDING''))
        (demo_db [demo_row 1 (JList [''1'', ''2'', ''3'']) 5 ''PENDING''], [])
       = (Some RuntimeError, demo_db [demo_row 1 (JList [''1'', ''2'', ''3'']) 5 ''PENDING''],
          [SendMessage ''1'' ''hi''])
   \<and> schedule_or_send demo_world ''hi'' [''1'', ''2'', ''3''] ''now'' None [] [] (demo_db [], [])
       = (Page (Some ''Message successfully sent to 2 recipient(s).'') None,
          (demo_db [])\<lparr>message_logs := [demo_log 1 ''1'' ''SENT'' None,
                                         demo_log 2 ''2'' ''FAILED'' (Some ''Timed out''),
                                         demo_log 3 ''3'' ''SENT'' None]\<rparr>,
          [SendMessage ''1'' ''hi'', SendMessage ''2'' ''hi'', SendMessage ''3'' ''hi''])"
  by (simp add: schedule_or_send_def send_scheduled_message_async_def demo_defs str_nat.simps)

section \<open>One turn of the scheduler loop\<close>

lemma foldl_process_message:
  "\<exists>f e'. foldl (process_message w) (db, e) ms =
       (db\<lparr>scheduled_messages := set_statuses (pm_id ` set ms) f (scheduled_messages db)\<rparr>, e')
     \<and> (\<forall>i. f i = ''SENT'' \<or> f i = ''FAILED'')
     \<and> (distinct (map pm_id ms) \<longrightarrow>
          (\<forall>m\<in>set ms. dispatch_raises w m \<longrightarrow> f (pm_id m) = ''FAILED''))"
proof (induction ms arbitrary: db e)
  case Nil
  have "foldl (process_message w) (db, e) [] =
       (db\<lparr>scheduled_messages := set_statuses (pm_id ` set []) (\<lambda>i. ''SENT'') (scheduled_messages db)\<rparr>, e)"
    by (simp add: set_statuses_def)
  then show ?case by fastforce
next
  case (Cons m ms)
  obtain s e1 where p: "process_message w (db, e) m = (update_message_status (pm_id m) s db, e1)"
    and s: "s = ''SENT'' \<or> s = ''FAILED''"
    and n: "dispatch_raises w m \<longrightarrow> s = ''FAILED''"
    using process_message_effect[of w db e m] by blast
  let ?db1 = "update_message_status (pm_id m) s db"
  obtain f e' where r: "foldl (process_message w) (?db1, e1) ms =
       (?db1\<lparr>scheduled_messages := set_statuses (pm_id ` set ms) f (scheduled_messages ?db1)\<rparr>, e')"
    and f: "\<forall>i. f i = ''SENT'' \<or> f i = ''FAILED''"
    and fn: "distinct (map pm_id ms) \<longrightarrow>
          (\<forall>m\<in>set ms. dispatch_raises w m \<longrightarrow> f (pm_id m) = ''FAILED'')"
    using Cons.IH[of ?db1 e1] by blast
  let ?g = "\<lambda>i. if i \<in> pm_id ` set ms then f i else s"
  have tab: "set_statuses (pm_id ` set ms) f (scheduled_messages ?db1)
           = set_statuses (pm_id ` set (m # ms)) ?g (scheduled_messages db)"
    by (auto simp: set_statuses_def update_message_status_def)
  have A: "foldl (process_message w) (db, e) (m # ms) =
       (db\<lparr>scheduled_messages := set_statuses (pm_id ` set (m # ms)) ?g (scheduled_messages db)\<rparr>, e')"
    using p r tab by (simp add: update_message_status_def)
  have B: "\<forall>i. ?g i = ''SENT'' \<or> ?g i = ''FAILED''"
    using f s by simp
  have C: "distinct (map pm_id (m # ms)) \<longrightarrow>
       (\<forall>m'\<in>set (m # ms). dispatch_raises w m' \<longrightarrow> ?g (pm_id m') = ''FAILED'')"
    using fn n by auto
  show ?case
    by (rule exI[of _ ?g], rule exI[of _ e'], intro conjI, rule A, rule B, rule C)
qed

lemma polled_ids:
  "pm_id ` set (get_pending_messages now db)
     = sm_id ` {r \<in> set (scheduled_messages db). sm_status r = ''PENDING'' \<and> sm_send_time r \<le> now}"
  by (auto simp: get_pending_messages_def select_columns_def image_iff)

lemma polled_ids_map:
  "map pm_id (get_pending_messages now db)
     = map sm_id (filter (\<lambda>r. sm_status r = ''PENDING'' \<and> sm_send_time r \<le> now) (scheduled_messages db))"
  by (simp add: get_pending_messages_def select_columns_def comp_def)

lemma scheduler_cycle_effect:
  "\<exists>f e'. scheduler_cycle w (db, e) =
       (db\<lparr>scheduled_messages :=
             set_statuses (pm_id ` set (get_pending_messages (time_time w e) db)) f (scheduled_messages db)\<rparr>,
        e')
     \<and> (\<forall>i. f i = ''SENT'' \<or> f i = ''FAILED'')
     \<and> (distinct (map pm_id (get_pending_messages (time_time w e) db)) \<longrightarrow>
          (\<forall>m\<in>set (get_pending_messages (time_time w e) db).
              dispatch_raises w m \<longrightarrow> f (pm_id m) = ''FAILED''))"
proof -
  let ?ms = "get_pending_messages (time_time w e) db"
  obtain f e' where a: "foldl (process_message w) (db, e) ?ms =
       (db\<lparr>scheduled_messages := set_statuses (pm_id ` set ?ms) f (scheduled_messages db)\<rparr>, e')"
     and b: "\<forall>i. f i = ''SENT'' \<or> f i = ''FAILED''"
     and c: "distinct (map pm_id ?ms) \<longrightarrow> (\<forall>m\<in>set ?ms. dispatch_raises w m \<longrightarrow> f (pm_id m) = ''FAILED'')"
    using foldl_process_message[of w db e ?ms] by blast
  have A: "scheduler_cycle w (db, e) =
       (db\<lparr>scheduled_messages := set_statuses (pm_id ` set ?ms) f (scheduled_messages db)\<rparr>,
        time_sleep w e')"
    using a by (simp add: scheduler_cycle_def Let_def)
  show ?thesis
    by (rule exI[of _ f], rule exI[of _ "time_sleep w e'"], intro conjI, rule A, rule b, rule c)
qed

lemma find_map_update:
  "find (\<lambda>r. sm_id r = i) (map (\<lambda>r. if sm_id r = j then r\<lparr>sm_status := s\<rparr> else r) rows)
     = map_option (\<lambda>r. if sm_id r = j then r\<lparr>sm_status := s\<rparr> else r) (find (\<lambda>r. sm_id r = i) rows)"
  by (induction rows) auto

lemma find_id: "find (\<lambda>r. sm_id r = i) rows = Some r \<Longrightarrow> sm_id r = i"
  by (induction rows) (auto split: if_splits)

lemma message_status_update:
  "message_status i (update_message_status j s db) =
     (if i = j then map_option (\<lambda>_. s) (message_status i db) else message_status i db)"
  by (cases "find (\<lambda>r. sm_id r = i) (scheduled_messages db)")
     (auto simp: message_status_def update_message_status_def find_map_update dest: find_id)

lemma message_status_logs [simp]:
  "message_status i (db\<lparr>message_logs := l\<rparr>) = message_status i db"
  by (simp add: message_status_def)

lemma message_status_users [simp]:
  "message_status i (db\<lparr>telegram_users := u\<rparr>) = message_status i db"
  "message_status i (db\<lparr>telegram_users_seq := q\<rparr>) = message_status i db"
  by (simp_all add: message_status_def)

lemma find_set_statuses:
  "find (\<lambda>r. sm_id r = i) (set_statuses ids f rows)
     = map_option (\<lambda>r. if sm_id r \<in> ids then r\<lparr>sm_status := f (sm_id r)\<rparr> else r)
         (find (\<lambda>r. sm_id r = i) rows)"
  by (induction rows) (auto simp: set_statuses_def)

lemma message_status_set_statuses:
  "message_status i (db\<lparr>scheduled_messages := set_statuses ids f (scheduled_messages db)\<rparr>)
     = (if i \<in> ids then map_option (\<lambda>_. f i) (message_status i db) else message_status i db)"
  by (cases "find (\<lambda>r. sm_id r = i) (scheduled_messages db)")
     (auto simp: message_status_def find_set_statuses dest: find_id)

lemma message_status_row:
  "unique_ids db \<Longrightarrow> r \<in> set (scheduled_messages db) \<Longrightarrow> message_status (sm_id r) db = Some (sm_status r)"
proof -
  have "distinct (map sm_id rows) \<Longrightarrow> r \<in> set rows \<Longrightarrow> find (\<lambda>x. sm_id x = sm_id r) rows = Some r"
    for rows :: "scheduled_row list"
    by (induction rows) (auto simp: image_iff)
  then show "unique_ids db \<Longrightarrow> r \<in> set (scheduled_messages db) \<Longrightarrow> ?thesis"
    by (simp add: unique_ids_def message_status_def)
qed

lemma polled_status:
  assumes "unique_ids db" and "m \<in> set (get_pending_messages now db)"
  shows "message_status (pm_id m) db = Some ''PENDING''"
proof -
  obtain r where "r \<in> set (scheduled_messages db)" "sm_status r = ''PENDING''" "m = select_columns r"
    using assms(2) by (auto simp: get_pending_messages_def)
  then show ?thesis using message_status_row[OF assms(1), of r] by (simp add: select_columns_def)
qed

lemma polled_distinct:
  "unique_ids db \<Longrightarrow> distinct (map pm_id (get_pending_messages now db))"
  by (simp add: polled_ids_map unique_ids_def distinct_map_filter)

text \<open>
  C5. A poll at time \<open>now\<close> selects exactly the ids of the rows that are pending with a send
  time not after \<open>now\<close>. With unique ids, a row whose send time is still ahead, or whose
  status is no longer pending, is not selected. After a turn of the scheduler loop a poll
  at the same time selects nothing, and a poll at any time selects none of the messages
  that the turn has dispatched.
\<close>

theorem poll_selects_due_pending:
  "(i \<in> pm_id ` set (get_pending_messages now db) \<longleftrightarrow>
      (\<exists>r\<in>set (scheduled_messages db). sm_id r = i \<and> sm_status r = ''PENDING'' \<and> sm_send_time r \<le> now))
   \<and> (unique_ids db \<and> r \<in> set (scheduled_messages db)
        \<and> (now < sm_send_time r \<or> sm_status r \<noteq> ''PENDING'')
        \<longrightarrow> sm_id r \<notin> pm_id ` set (get_pending_messages now db))
   \<and> get_pending_messages (time_time w e) (fst (scheduler_cycle w (db, e))) = []
   \<and> pm_id ` set (get_pending_messages now' (fst (scheduler_cycle w (db, e))))
        \<inter> pm_id ` set (get_pending_messages (time_time w e) db) = {}"
proof (intro conjI)
  show "i \<in> pm_id ` set (get_pending_messages now db) \<longleftrightarrow>
      (\<exists>r\<in>set (scheduled_messages db). sm_id r = i \<and> sm_status r = ''PENDING'' \<and> sm_send_time r \<le> now)"
    unfolding polled_ids by auto
  show "unique_ids db \<and> r \<in> set (scheduled_messages db)
        \<and> (now < sm_send_time r \<or> sm_status r \<noteq> ''PENDING'')
        \<longrightarrow> sm_id r \<notin> pm_id ` set (get_pending_messages now db)"
  proof (intro impI notI, elim conjE)
    assume u: "unique_ids db" and r: "r \<in> set (scheduled_messages db)"
      and n: "now < sm_send_time r \<or> sm_status r \<noteq> ''PENDING''"
      and p: "sm_id r \<in> pm_id ` set (get_pending_messages now db)"
    from p obtain r' where r': "r' \<in> set (scheduled_messages db)" "sm_id r' = sm_id r"
      "sm_status r' = ''PENDING''" "sm_send_time r' \<le> now"
      unfolding polled_ids by auto
    have "r' = r"
      using u r r'(1,2) by (simp add: unique_ids_def inj_on_eq_iff[OF iffD1[OF distinct_map, THEN conjunct2]])
    with r' n show False by auto
  qed
  obtain f e' where c: "scheduler_cycle w (db, e) =
       (db\<lparr>scheduled_messages :=
             set_statuses (pm_id ` set (get_pending_messages (time_time w e) db)) f (scheduled_messages db)\<rparr>,
        e')"
     and f: "\<forall>i. f i = ''SENT'' \<or> f i = ''FAILED''"
    using scheduler_cycle_effect[of w db e] by blast
  let ?P = "pm_id ` set (get_pending_messages (time_time w e) db)"
  have fp: "f j \<noteq> ''PENDING''" for j
    using f[rule_format, of j] by auto
  have sel: "r' \<in> set (set_statuses ?P f (scheduled_messages db)) \<Longrightarrow> sm_status r' = ''PENDING''
      \<Longrightarrow> r' \<in> set (scheduled_messages db) \<and> sm_id r' \<notin> ?P" for r'
    using fp by (auto simp: set_statuses_def split: if_splits)
  show "pm_id ` set (get_pending_messages now' (fst (scheduler_cycle w (db, e)))) \<inter> ?P = {}"
    unfolding c using sel by (auto simp: polled_ids[of now'])
  have "\<not> (r' \<in> set (set_statuses ?P f (scheduled_messages db)) \<and> sm_status r' = ''PENDING''
          \<and> sm_send_time r' \<le> time_time w e)" for r'
  proof
    assume a: "r' \<in> set (set_statuses ?P f (scheduled_messages db)) \<and> sm_status r' = ''PENDING''
          \<and> sm_send_time r' \<le> time_time w e"
    then have "r' \<in> set (scheduled_messages db)" "sm_id r' \<notin> ?P" using sel by auto
    moreover have "sm_id r' \<in> ?P" unfolding polled_ids using a calculation(1) by auto
    ultimately show False by simp
  qed
  then show "get_pending_messages (time_time w e) (fst (scheduler_cycle w (db, e))) = []"
    unfolding c by (auto simp: get_pending_messages_def filter_empty_conv)
qed

text \<open>
  C6. In a turn of the scheduler loop, a due message whose dispatch raises (the
  \<^verbatim>\<open>RuntimeError\<close> of the logging outside an application context, or the
  \<^verbatim>\<open>TypeError\<close> of null targets) ends the turn with status FAILED, and every message
  that was due in that turn, before or after it in the list, ends the turn with a final
  status as well: the loop went on.
\<close>

theorem systemic_failure_marks_failed:
  assumes "unique_ids db"
    and "m \<in> set (get_pending_messages (time_time w e) db)"
    and "fst (send_scheduled_message_async w False m st0) = Some ex"
  shows "message_status (pm_id m) (fst (scheduler_cycle w (db, e))) = Some ''FAILED''
     \<and> list_all (\<lambda>m'. message_status (pm_id m') (fst (scheduler_cycle w (db, e))) = Some ''SENT''
                    \<or> message_status (pm_id m') (fst (scheduler_cycle w (db, e))) = Some ''FAILED'')
         (get_pending_messages (time_time w e) db)"
proof -
  let ?ms = "get_pending_messages (time_time w e) db"
  have raises: "dispatch_raises w m"
    using assms(3) dispatch_raises_iff[of w m st0] by blast
  obtain f e' where c: "scheduler_cycle w (db, e) =
       (db\<lparr>scheduled_messages := set_statuses (pm_id ` set ?ms) f (scheduled_messages db)\<rparr>, e')"
     and f: "\<forall>i. f i = ''SENT'' \<or> f i = ''FAILED''"
     and n: "distinct (map pm_id ?ms) \<longrightarrow> (\<forall>m\<in>set ?ms. dispatch_raises w m \<longrightarrow> f (pm_id m) = ''FAILED'')"
    using scheduler_cycle_effect[of w db e] by blast
  have st: "message_status (pm_id m') (fst (scheduler_cycle w (db, e))) = Some (f (pm_id m'))"
    if "m' \<in> set ?ms" for m'
    unfolding c using that polled_status[OF assms(1) that]
    by (simp add: message_status_set_statuses)
  have "f (pm_id m) = ''FAILED''"
    using n polled_distinct[OF assms(1)] assms(2) raises by blast
  then have A: "message_status (pm_id m) (fst (scheduler_cycle w (db, e))) = Some ''FAILED''"
    using st[OF assms(2)] by simp
  have B: "list_all (\<lambda>m'. message_status (pm_id m') (fst (scheduler_cycle w (db, e))) = Some ''SENT''
                    \<or> message_status (pm_id m') (fst (scheduler_cycle w (db, e))) = Some ''FAILED'') ?ms"
    unfolding list_all_iff using st f by auto
  from A B show ?thesis by (rule conjI)
qed

section \<open>Concrete turns of the scheduler loop\<close>

lemma demo_store_unique: "unique_ids demo_store"
  by (simp add: unique_ids_def demo_store_def demo_db_def demo_row_def)

lemma demo_queue_unique: "unique_ids demo_queue"
  by (simp add: unique_ids_def demo_queue_def demo_db_def demo_row_def)

lemma demo_time: "time_time demo_world e = 1000"
  by (simp add: demo_world_def)

lemma demo_queue_cycle:
  "scheduler_cycle demo_world (demo_queue, []) =
     (demo_db [demo_row 1 (JList [''7'']) 5 ''FAILED'',
               demo_row 2 (JList []) 6 ''SENT'',
               demo_row 3 JNull 7 ''FAILED'',
               demo_row 4 (JList [''7'']) 2000 ''PENDING''],
      [SendMessage ''7'' ''hi''])"
  by (simp add: scheduler_cycle_def get_pending_messages_def process_message_def
      send_scheduled_message_async_def demo_queue_def demo_defs)

theorem poll_selects_due_pending_witness:
  "1 \<in> pm_id ` set (get_pending_messages 1000 demo_store)
   \<and> 3 \<notin> pm_id ` set (get_pending_messages 1000 demo_store)
   \<and> get_pending_messages 1000 (fst (scheduler_cycle demo_world (demo_store, []))) = []
   \<and> pm_id ` set (get_pending_messages 5000 (fst (scheduler_cycle demo_world (demo_store, []))))
        \<inter> pm_id ` set (get_pending_messages 1000 demo_store) = {}"
proof -
  have r1: "demo_row 1 JNull 5 ''PENDING'' \<in> set (scheduled_messages demo_store)"
    by (simp add: demo_store_def demo_db_def)
  have r3: "demo_row 3 (JList [''7'']) 2000 ''PENDING'' \<in> set (scheduled_messages demo_store)"
    by (simp add: demo_store_def demo_db_def)
  have f1: "sm_id (demo_row 1 JNull 5 ''PENDING'') = 1 \<and> sm_status (demo_row 1 JNull 5 ''PENDING'') = ''PENDING''
       \<and> sm_send_time (demo_row 1 JNull 5 ''PENDING'') \<le> 1000"
    by (simp add: demo_row_def)
  have f3: "sm_id (demo_row 3 (JList [''7'']) 2000 ''PENDING'') = 3
       \<and> 1000 < sm_send_time (demo_row 3 (JList [''7'']) 2000 ''PENDING'')"
    by (simp add: demo_row_def)
  note th = poll_selects_due_pending[of 1 1000 demo_store "demo_row 3 (JList [''7'']) 2000 ''PENDING''"
      demo_world "[]" 5000]
  have a: "1 \<in> pm_id ` set (get_pending_messages 1000 demo_store)"
    using th[THEN conjunct1] r1 f1 by blast
  have b: "3 \<notin> pm_id ` set (get_pending_messages 1000 demo_store)"
    using th[THEN conjunct2, THEN conjunct1] demo_store_unique r3 f3 by simp
  have c: "get_pending_messages 1000 (fst (scheduler_cycle demo_world (demo_store, []))) = []"
    using th[THEN conjunct2, THEN conjunct2, THEN conjunct1] unfolding demo_time .
  have d: "pm_id ` set (get_pending_messages 5000 (fst (scheduler_cycle demo_world (demo_store, []))))
        \<inter> pm_id ` set (get_pending_messages 1000 demo_store) = {}"
    using th[THEN conjunct2, THEN conjunct2, THEN conjunct2] unfolding demo_time .
  from a b c d show ?thesis by simp
qed

theorem systemic_failure_marks_failed_witness:
  "send_scheduled_message_async demo_world False
       (select_columns (demo_row 1 (JList [''7'']) 5 ''PENDING'')) (demo_queue, [])
     = (Some RuntimeError, demo_queue, [SendMessage ''7'' ''hi''])
   \<and> message_status 1 (fst (scheduler_cycle demo_world (demo_queue, []))) = Some ''FAILED''
   \<and> message_status 2 (fst (scheduler_cycle demo_world (demo_queue, []))) = Some ''SENT''
   \<and> message_status 3 (fst (scheduler_cycle demo_world (demo_queue, []))) = Some ''FAILED''
   \<and> message_status 4 (fst (scheduler_cycle demo_world (demo_queue, []))) = Some ''PENDING''
   \<and> list_all (\<lambda>m'. message_status (pm_id m') (fst (scheduler_cycle demo_world (demo_queue, []))) = Some ''SENT''
                    \<or> message_status (pm_id m') (fst (scheduler_cycle demo_world (demo_queue, []))) = Some ''FAILED'')
         (get_pending_messages 1000 demo_queue)"
proof -
  let ?m = "select_columns (demo_row 1 (JList [''7'']) 5 ''PENDING'')"
  have m: "?m \<in> set (get_pending_messages (time_time demo_world []) demo_queue)"
    by (simp add: demo_time get_pending_messages_def demo_queue_def demo_db_def demo_row_def)
  have r: "send_scheduled_message_async demo_world False ?m (demo_queue, [])
     = (Some RuntimeError, demo_queue, [SendMessage ''7'' ''hi''])"
    by (simp add: send_scheduled_message_async_def demo_queue_def demo_defs)
  then have r': "fst (send_scheduled_message_async demo_world False ?m (demo_queue, [])) = Some RuntimeError"
    by simp
  have i: "pm_id ?m = 1"
    by (simp add: select_columns_def demo_row_def)
  have s: "message_status 2 (fst (scheduler_cycle demo_world (demo_queue, []))) = Some ''SENT''"
    "message_status 3 (fst (scheduler_cycle demo_world (demo_queue, []))) = Some ''FAILED''"
    "message_status 4 (fst (scheduler_cycle demo_world (demo_queue, []))) = Some ''PENDING''"
    by (simp_all add: demo_queue_cycle message_status_def demo_db_def demo_row_def)
  show ?thesis
    using systemic_failure_marks_failed[OF demo_queue_unique m r'] r s unfolding demo_time i by simp
qed

section \<open>The status lifecycle\<close>

lemma le_foldr_max: "x \<in> set ids \<Longrightarrow> x \<le> foldr max ids (0::int)"
  by (induction ids) auto

lemma next_rowid_fresh: "next_rowid ids \<notin> set ids"
  using le_foldr_max[of "next_rowid ids" ids] by (auto simp: next_rowid_def)

lemma schedule_or_send_table:
  assumes "schedule_or_send w mtext xs send_type sched mu mt (db, e) = (page, db', e')"
  shows "table_step (scheduled_messages db) (scheduled_messages db')"
proof (cases "send_type = ''scheduled'' \<and> truthy sched")
  case True
  then show ?thesis
    using assms
    by (cases "strptime_timestamp w (case sched of None \<Rightarrow> [] | Some v \<Rightarrow> v)")
       (auto simp: schedule_or_send_def table_step_def add_scheduled_message_def)
next
  case False
  show ?thesis
  proof (cases "xs = []")
    case True
    then show ?thesis using assms immediate_no_recipients[OF False, of w mtext mu mt "(db, e)"]
      by (simp add: table_step_def)
  next
    case nonempty: False
    obtain rows e1 where "schedule_or_send w mtext xs send_type sched mu mt (db, e) =
       (Page (Some (''Message successfully sent to ''
                 @ str_nat (length (filter (\<lambda>r. log_status r = ''SENT'') rows)) @ '' recipient(s).'')) None,
        db\<lparr>message_logs := message_logs db @ rows\<rparr>, e1)"
      using immediate_send[OF False nonempty, of w mtext mu mt db e] by blast
    then show ?thesis using assms by (auto simp: table_step_def)
  qed
qed

lemma broadcast_message_table:
  assumes "broadcast_message w form (db, e) = (page, db', e')"
  shows "table_step (scheduled_messages db) (scheduled_messages db')"
proof -
  have same: "table_step (scheduled_messages db) (scheduled_messages db)"
    by (simp add: table_step_def)
  show ?thesis
    using assms same schedule_or_send_table
    unfolding broadcast_message_def
    by (auto split: option.splits sum.splits)
qed

lemma broadcast_add_id_table:
  assumes "broadcast_add_id form (db, e) = (page, db', e')"
  shows "scheduled_messages db' = scheduled_messages db"
  using assms unfolding broadcast_add_id_def add_user_def
  by (auto simp: Let_def split: option.splits if_splits)

lemma broadcast_table:
  assumes "broadcast BOT_TOKEN w req (db, e) = (page, db', e')"
  shows "table_step (scheduled_messages db) (scheduled_messages db')"
proof -
  have same: "table_step (scheduled_messages db) (scheduled_messages db)"
    by (simp add: table_step_def)
  show ?thesis
    using assms same broadcast_message_table[of w "req_form req" db e page db' e']
      broadcast_add_id_table[of "req_form req" db e page db' e']
    unfolding broadcast_def
    by (auto split: if_splits)
qed

lemma find_append_fresh:
  "find P (rows @ [row]) = (case find P rows of Some r \<Rightarrow> Some r | None \<Rightarrow> if P row then Some row else None)"
  by (induction rows) auto

lemma message_status_None: "message_status i db = None \<longleftrightarrow> i \<notin> set (map sm_id (scheduled_messages db))"
  by (auto simp: message_status_def find_None_iff)

lemma table_step_status:
  assumes "table_step (scheduled_messages db) (scheduled_messages db')"
  shows "status_step (message_status i db) (message_status i db')"
    and "message_status i db \<noteq> None \<Longrightarrow> message_status i db' = message_status i db"
    and "unique_ids db \<Longrightarrow> unique_ids db'"
proof -
  from assms consider "scheduled_messages db' = scheduled_messages db"
    | row where "scheduled_messages db' = scheduled_messages db @ [row]"
        "sm_id row = next_rowid (map sm_id (scheduled_messages db))" "sm_status row = ''PENDING''"
    unfolding table_step_def by blast
  then have "status_step (message_status i db) (message_status i db')
      \<and> (message_status i db \<noteq> None \<longrightarrow> message_status i db' = message_status i db)
      \<and> (unique_ids db \<longrightarrow> unique_ids db')"
  proof cases
    case 1
    then show ?thesis by (simp add: message_status_def status_step_def unique_ids_def)
  next
    case 2
    have fresh: "sm_id row \<notin> set (map sm_id (scheduled_messages db))"
      unfolding 2(2) by (rule next_rowid_fresh)
    have "message_status i db' = (case message_status i db of Some s \<Rightarrow> Some s
             | None \<Rightarrow> if sm_id row = i then Some ''PENDING'' else None)"
      using 2 by (simp add: message_status_def find_append_fresh split: option.splits)
    then show ?thesis
      using fresh 2(1) by (auto simp: status_step_def unique_ids_def split: option.splits)
  qed
  then show "status_step (message_status i db) (message_status i db')"
    and "message_status i db \<noteq> None \<Longrightarrow> message_status i db' = message_status i db"
    and "unique_ids db \<Longrightarrow> unique_ids db'"
    by auto
qed

lemma update_unique: "unique_ids (update_message_status j s db) = unique_ids db"
  by (simp add: unique_ids_def update_message_status_def comp_def if_distrib cong: if_cong)

lemma step_lifecycle:
  assumes "step BOT_TOKEN w s s'" and "system_inv s"
  shows "system_inv s' \<and> status_step (message_status i (fst s)) (message_status i (fst s'))"
  using assms
proof (induction rule: step.induct)
  case (poll db e)
  have "list_all (\<lambda>m. message_status (pm_id m) db = Some ''PENDING'')
          (get_pending_messages (time_time w e) db)"
    unfolding list_all_iff using polled_status poll(2) by auto
  then show ?case
    using poll polled_distinct by (simp add: status_step_def)
next
  case (dispatch db e message db' e' pending)
  obtain s e1 where p: "process_message w (db, e) message =
       (update_message_status (pm_id message) s db, e1)"
     and s: "s = ''SENT'' \<or> s = ''FAILED''"
    using process_message_effect[of w db e message] by blast
  have db': "db' = update_message_status (pm_id message) s db"
    using p dispatch(1) by simp
  have inv: "unique_ids db" "distinct (map pm_id (message # pending))"
     "message_status (pm_id message) db = Some ''PENDING''"
     "list_all (\<lambda>m. message_status (pm_id m) db = Some ''PENDING'') pending"
    using dispatch(2) by auto
  have st: "message_status j db' = (if j = pm_id message then Some s else message_status j db)" for j
    unfolding db' using inv(3) by (simp add: message_status_update)
  have "list_all (\<lambda>m. message_status (pm_id m) db' = Some ''PENDING'') pending"
  proof -
    have "pm_id m \<noteq> pm_id message" if "m \<in> set pending" for m
      using inv(2) that by (metis distinct.simps(2) image_eqI list.simps(9) list.set_map)
    then show ?thesis using inv(4) unfolding list_all_iff st by simp
  qed
  moreover have "unique_ids db'"
    unfolding db' using inv(1) by (simp add: update_unique)
  moreover have "status_step (message_status i db) (message_status i db')"
    unfolding st using s inv(3) by (auto simp: status_step_def)
  ultimately show ?case using inv(2) by simp
next
  case (sleep db e)
  then show ?case by (simp add: status_step_def)
next
  case (request req db e page db' e' ph)
  note t = table_step_status[OF broadcast_table[OF request(1)]]
  have u: "unique_ids db" using request(2) by (cases ph) auto
  have "system_inv (db', e', ph)"
  proof (cases ph)
    case Polling
    then show ?thesis using t(3)[OF u] by simp
  next
    case (Dispatching pending)
    have p: "\<forall>m\<in>set pending. message_status (pm_id m) db = Some ''PENDING''"
      using request(2) Dispatching by (simp add: list_all_iff)
    have "message_status (pm_id m) db' = Some ''PENDING''" if "m \<in> set pending" for m
      using p that t(2)[of "pm_id m"] by simp
    then have "list_all (\<lambda>m. message_status (pm_id m) db' = Some ''PENDING'') pending"
      by (simp add: list_all_iff)
    then show ?thesis using request(2) Dispatching t(3)[OF u] by simp
  qed
  then show ?case using t(1) by simp
qed

lemma steps_inv:
  assumes "rtranclp (step BOT_TOKEN w) s s'" and "system_inv s"
  shows "system_inv s'"
  using assms by (induction rule: rtranclp_induct) (auto dest: step_lifecycle)

lemma final_status_stays:
  assumes "rtranclp (step BOT_TOKEN w) s s'" and "system_inv s"
    and "message_status i (fst s) = Some ''SENT'' \<or> message_status i (fst s) = Some ''FAILED''"
  shows "message_status i (fst s') = message_status i (fst s)"
  using assms
proof (induction rule: rtranclp_induct)
  case base
  then show ?case by simp
next
  case (step y z)
  have "system_inv y" using steps_inv[OF step(1) step(4)] .
  from step_lifecycle[OF step(2) this, of i] step(3)[OF step(4,5)] step(5)
  show ?case by (auto simp: status_step_def)
qed

text \<open>
  C2. Along every run of the program from a store with unique ids (steps of the scheduler
  loop and requests of the panel, in any order), each step changes the status of a
  message in one of three ways only: not at all, from PENDING to SENT or FAILED, or by
  creating the message as PENDING. Once a message is SENT or FAILED, its status is the
  same after any number of further steps: no step leaves a final status or returns to
  PENDING, and a final status is reached at most once.
\<close>

theorem status_lifecycle:
  assumes "system_inv s0"
    and "rtranclp (step BOT_TOKEN w) s0 s1"
    and "step BOT_TOKEN w s1 s2"
    and "rtranclp (step BOT_TOKEN w) s2 s3"
  shows "status_step (message_status i (fst s1)) (message_status i (fst s2))
     \<and> (message_status i (fst s2) = Some ''SENT'' \<or> message_status i (fst s2) = Some ''FAILED''
          \<longrightarrow> message_status i (fst s3) = message_status i (fst s2))"
proof -
  have i1: "system_inv s1" using steps_inv[OF assms(2,1)] .
  have i2: "system_inv s2" using step_lifecycle[OF assms(3) i1] by simp
  show ?thesis
    using step_lifecycle[OF assms(3) i1, of i] final_status_stays[OF assms(4) i2, of i] by blast
qed

text \<open>Every run of the loop function is a run of the transition system.\<close>

lemma dispatching_steps:
  "rtranclp (step BOT_TOKEN w) (db, e, Dispatching ms)
     (fst (foldl (process_message w) (db, e) ms), snd (foldl (process_message w) (db, e) ms), Dispatching [])"
proof (induction ms arbitrary: db e)
  case Nil
  show ?case by simp
next
  case (Cons m ms)
  obtain db1 e1 where p: "process_message w (db, e) m = (db1, e1)"
    by (cases "process_message w (db, e) m")
  have s: "step BOT_TOKEN w (db, e, Dispatching (m # ms)) (db1, e1, Dispatching ms)"
    using p by (rule step.dispatch)
  have r: "rtranclp (step BOT_TOKEN w) (db1, e1, Dispatching ms)
     (fst (foldl (process_message w) (db1, e1) ms), snd (foldl (process_message w) (db1, e1) ms),
      Dispatching [])"
    by (rule Cons.IH)
  have eq: "foldl (process_message w) (db, e) (m # ms) = foldl (process_message w) (db1, e1) ms"
    using p by simp
  show ?case
    unfolding eq by (rule converse_rtranclp_into_rtranclp[OF s r])
qed

lemma scheduler_cycle_steps:
  assumes "truthy BOT_TOKEN"
  shows "rtranclp (step BOT_TOKEN w) (db, e, Polling)
     (fst (scheduler_cycle w (db, e)), snd (scheduler_cycle w (db, e)), Polling)"
proof -
  let ?ms = "get_pending_messages (time_time w e) db"
  let ?st = "foldl (process_message w) (db, e) ?ms"
  have a: "step BOT_TOKEN w (db, e, Polling) (db, e, Dispatching ?ms)"
    using assms by (rule step.poll)
  have b: "rtranclp (step BOT_TOKEN w) (db, e, Dispatching ?ms) (fst ?st, snd ?st, Dispatching [])"
    by (rule dispatching_steps)
  have c: "step BOT_TOKEN w (fst ?st, snd ?st, Dispatching []) (fst ?st, time_sleep w (snd ?st), Polling)"
    by (rule step.sleep)
  have d: "rtranclp (step BOT_TOKEN w) (db, e, Polling) (fst ?st, snd ?st, Dispatching [])"
    by (rule converse_rtranclp_into_rtranclp[OF a b])
  have f: "rtranclp (step BOT_TOKEN w) (db, e, Polling) (fst ?st, time_sleep w (snd ?st), Polling)"
    by (rule rtranclp.rtrancl_into_rtrancl[OF d c])
  have eq: "scheduler_cycle w (db, e) = (fst ?st, time_sleep w (snd ?st))"
    by (simp add: scheduler_cycle_def Let_def)
  show ?thesis
    unfolding eq fst_conv snd_conv by (rule f)
qed

lemma check_schedule_and_send_steps:
  "rtranclp (step BOT_TOKEN w) (fst st, snd st, Polling)
     (fst (check_schedule_and_send BOT_TOKEN w n st), snd (check_schedule_and_send BOT_TOKEN w n st), Polling)"
proof (induction n arbitrary: st)
  case 0
  show ?case by simp
next
  case (Suc n)
  show ?case
  proof (cases "truthy BOT_TOKEN")
    case False
    then have eq: "check_schedule_and_send BOT_TOKEN w (Suc n) st = st" by simp
    show ?thesis unfolding eq by (rule rtranclp.rtrancl_refl)
  next
    case True
    have a: "rtranclp (step BOT_TOKEN w) (fst st, snd st, Polling)
        (fst (scheduler_cycle w st), snd (scheduler_cycle w st), Polling)"
      using scheduler_cycle_steps[OF True, of w "fst st" "snd st"] by simp
    have eq: "check_schedule_and_send BOT_TOKEN w (Suc n) st
        = check_schedule_and_send BOT_TOKEN w n (scheduler_cycle w st)"
      using True by simp
    show ?thesis
      unfolding eq by (rule rtranclp_trans[OF a Suc.IH])
  qed
qed

theorem status_lifecycle_witness:
  "status_step (Some ''PENDING'') (Some ''FAILED'')
   \<and> message_status 1 (fst (check_schedule_and_send (Some ''token'') demo_world 3
          (process_message demo_world (update_message_status 1 ''FAILED'' demo_store, [])
             (select_columns (demo_row 2 (JList [''7'', ''2'', ''7'']) 900 ''PENDING''))))) = Some ''FAILED''"
proof -
  let ?tok = "Some ''token''"
  let ?ms = "get_pending_messages (time_time demo_world []) demo_store"
  let ?m1 = "select_columns (demo_row 1 JNull 5 ''PENDING'')"
  let ?m2 = "select_columns (demo_row 2 (JList [''7'', ''2'', ''7'']) 900 ''PENDING'')"
  let ?db2 = "update_message_status 1 ''FAILED'' demo_store"
  let ?st3 = "process_message demo_world (?db2, []) ?m2"
  let ?s0 = "(demo_store, [], Polling)"
  let ?s1 = "(demo_store, [], Dispatching [?m1, ?m2])"
  let ?s2 = "(?db2, [], Dispatching [?m2])"
  let ?s3 = "(fst ?st3, snd ?st3, Dispatching [])"
  let ?s4 = "(fst ?st3, snd ?st3, Polling)"
  let ?s5 = "(fst (check_schedule_and_send ?tok demo_world 3 ?st3),
              snd (check_schedule_and_send ?tok demo_world 3 ?st3), Polling)"
  have inv: "system_inv ?s0"
    using demo_store_unique by simp
  have ms: "?ms = [?m1, ?m2]"
    by (simp add: get_pending_messages_def demo_store_def demo_db_def demo_row_def demo_world_def)
  have "step ?tok demo_world ?s0 (demo_store, [], Dispatching ?ms)"
    by (rule step.poll) (simp add: truthy_def)
  then have a: "rtranclp (step ?tok demo_world) ?s0 ?s1"
    unfolding ms by (rule r_into_rtranclp)
  have "process_message demo_world (demo_store, []) ?m1 = (?db2, [])"
    by (simp add: process_message_def send_scheduled_message_async_def select_columns_def demo_row_def)
  then have b: "step ?tok demo_world ?s1 ?s2"
    by (rule step.dispatch)
  have c1: "step ?tok demo_world ?s2 ?s3"
    by (rule step.dispatch) simp
  have "step ?tok demo_world ?s3 (fst ?st3, time_sleep demo_world (snd ?st3), Polling)"
    by (rule step.sleep)
  then have c2: "step ?tok demo_world ?s3 ?s4"
    by (simp add: demo_world_def)
  have c3: "rtranclp (step ?tok demo_world) ?s4 ?s5"
    by (rule check_schedule_and_send_steps)
  have c: "rtranclp (step ?tok demo_world) ?s2 ?s5"
    by (rule converse_rtranclp_into_rtranclp[OF c1 converse_rtranclp_into_rtranclp[OF c2 c3]])
  have p1: "message_status 1 (fst ?s1) = Some ''PENDING''"
    by (simp add: message_status_def demo_store_def demo_db_def demo_row_def)
  have p2: "message_status 1 (fst ?s2) = Some ''FAILED''"
    by (simp add: message_status_def update_message_status_def demo_store_def demo_db_def demo_row_def)
  show ?thesis
    using status_lifecycle[OF inv a b c, of 1] unfolding p1 p2 by simp
qed

section \<open>Requests of the panel\<close>

lemma strip_blank: "strip '' '' = []"
  by (simp add: strip_def isspace_def)

lemma strip_Nil: "strip [] = []"
  by (simp add: strip_def)

text \<open>
  C7, as stated, fails twice. A request that asks for scheduling with a blank schedule time
  (which \<^verbatim>\<open>strptime\<close> rejects) is not answered with an error: the handler takes the blank
  for "no schedule" and broadcasts at once, and a log row is written. And a request that
  asks for scheduling at a well-formed time and whose recipient list resolves to nothing
  is answered with the success message, and a scheduled message with no targets is stored.
\<close>

theorem blank_time_or_no_recipient_counterexample:
  "strptime_timestamp demo_world [] = ValueError
   \<and> broadcast (Some ''token'') demo_world
        \<lparr>req_method = ''POST'', req_form = blank_time_form\<rparr> (demo_db [], [])
     = (Page (Some ''Message successfully sent to 1 recipient(s).'') None,
        (demo_db [])\<lparr>message_logs := [demo_log 1 ''7'' ''SENT'' None]\<rparr>,
        [SendMessage ''7'' ''hi''])
   \<and> determine_recipients ''multiple'' (strip '' '') schedule_nobody_form (demo_db []) = Inr []
   \<and> broadcast (Some ''token'') demo_world
        \<lparr>req_method = ''POST'', req_form = schedule_nobody_form\<rparr> (demo_db [], [])
     = (Page (Some ''Message successfully scheduled for 2030-01-01 10:00.'') None,
        demo_db [\<lparr>sm_id = 1, sm_message_text = ''hi'', sm_target_ids = JList [],
                  sm_media_url = Some [], sm_media_type = Some [], sm_send_time = 1893492000,
                  sm_status = ''PENDING''\<rparr>], [])"
proof -
  have s7: "strip ''7'' = ''7''"
    by (simp add: strip_def isspace_def)
  have e7: "explicit_ids ''7'' = [''7'']"
    by (simp add: explicit_ids_def s7)
  have a: "strptime_timestamp demo_world [] = ValueError"
    by (simp add: demo_world_def)
  have b: "broadcast (Some ''token'') demo_world
        \<lparr>req_method = ''POST'', req_form = blank_time_form\<rparr> (demo_db [], [])
     = (Page (Some ''Message successfully sent to 1 recipient(s).'') None,
        (demo_db [])\<lparr>message_logs := [demo_log 1 ''7'' ''SENT'' None]\<rparr>,
        [SendMessage ''7'' ''hi''])"
    by (simp add: broadcast_def broadcast_message_def blank_time_form_def determine_recipients_def
        s7 e7 strip_Nil form_get_def schedule_or_send_def demo_defs str_nat.simps)
  have c: "determine_recipients ''multiple'' (strip '' '') schedule_nobody_form (demo_db []) = Inr []"
    by (simp add: strip_blank determine_recipients_def)
  have d: "broadcast (Some ''token'') demo_world
        \<lparr>req_method = ''POST'', req_form = schedule_nobody_form\<rparr> (demo_db [], [])
     = (Page (Some ''Message successfully scheduled for 2030-01-01 10:00.'') None,
        demo_db [\<lparr>sm_id = 1, sm_message_text = ''hi'', sm_target_ids = JList [],
                  sm_media_url = Some [], sm_media_type = Some [], sm_send_time = 1893492000,
                  sm_status = ''PENDING''\<rparr>], [])"
    by (simp add: strip_blank strip_Nil determine_recipients_def broadcast_def broadcast_message_def
        schedule_or_send_def schedule_nobody_form_def truthy_def demo_world_def form_get_def
        add_scheduled_message_def next_rowid_def demo_db_def)
  from a b c d show ?thesis by (intro conjI)
qed

text \<open>
  C7, amended. A request that asks for scheduling with a schedule time that is not blank
  and not of the format (parsing raises \<^verbatim>\<open>ValueError\<close>), and a request that the handler
  sends at once (the send type is not \<^verbatim>\<open>scheduled\<close>, or the schedule time is blank or
  absent) and that resolves to no recipient, are answered with the page carrying the error
  string and no success message, and the store and the world are as before.
\<close>

theorem input_errors_leave_state_unchanged:
  assumes "truthy BOT_TOKEN"
    and "req_method request = ''POST''"
    and "req_form request ''message_text'' = Some message_text"
    and "req_form request ''target_type'' = Some target_type"
    and "req_form request ''target_ids'' = Some target_ids"
    and "req_form request ''send_type'' = Some send_type"
    and "determine_recipients target_type (strip target_ids) (req_form request) (fst st) = Inr recipients"
    and "(send_type = ''scheduled'' \<and> req_form request ''schedule_time'' = Some t \<and> t \<noteq> []
            \<and> strptime_timestamp w t = ValueError)
         \<or> (\<not> (send_type = ''scheduled'' \<and> truthy (req_form request ''schedule_time''))
            \<and> recipients = [])"
  shows "broadcast BOT_TOKEN w request st =
     (Page None
        (Some (if send_type = ''scheduled'' \<and> truthy (req_form request ''schedule_time'')
               then ''Invalid schedule time format. Please use the YYYY-MM-DD HH:MM format.''
               else ''No recipients specified for broadcasting.'')), st)"
proof -
  have b: "broadcast BOT_TOKEN w request st =
      schedule_or_send w message_text recipients send_type (req_form request ''schedule_time'')
        (strip (form_get (req_form request) ''media_url''))
        (strip (form_get (req_form request) ''media_type'')) st"
    using assms(1-7) by (simp add: broadcast_def broadcast_message_def)
  from assms(8) show ?thesis
  proof
    assume a: "send_type = ''scheduled'' \<and> req_form request ''schedule_time'' = Some t \<and> t \<noteq> []
            \<and> strptime_timestamp w t = ValueError"
    then show ?thesis
      unfolding b by (simp add: schedule_or_send_def truthy_def)
  next
    assume a: "\<not> (send_type = ''scheduled'' \<and> truthy (req_form request ''schedule_time''))
            \<and> recipients = []"
    then show ?thesis
      unfolding b
      using immediate_no_recipients[of send_type "req_form request ''schedule_time''" w message_text
          "strip (form_get (req_form request) ''media_url'')"
          "strip (form_get (req_form request) ''media_type'')" st]
      by simp
  qed
qed

theorem input_errors_leave_state_unchanged_witness:
  "broadcast (Some ''token'') demo_world \<lparr>req_method = ''POST'', req_form = bad_time_form\<rparr>
      (demo_store, [])
     = (Page None (Some ''Invalid schedule time format. Please use the YYYY-MM-DD HH:MM format.''),
        demo_store, [])"
proof -
  let ?req = "\<lparr>req_method = ''POST'', req_form = bad_time_form\<rparr>"
  have s: "strip ''7, 2'' = ''7, 2''"
    by (simp add: strip_def isspace_def)
  have d: "determine_recipients ''multiple'' (strip ''7, 2'') (req_form ?req) (fst (demo_store, []))
      = Inr (explicit_ids ''7, 2'')"
    by (simp add: s determine_recipients_def)
  have h: "(''scheduled'' = ''scheduled'' \<and> req_form ?req ''schedule_time'' = Some ''tomorrow''
            \<and> ''tomorrow'' \<noteq> [] \<and> strptime_timestamp demo_world ''tomorrow'' = ValueError)
         \<or> (\<not> (''scheduled'' = ''scheduled'' \<and> truthy (req_form ?req ''schedule_time''))
            \<and> explicit_ids ''7, 2'' = [])"
    by (simp add: bad_time_form_def demo_world_def)
  have t: "truthy (req_form ?req ''schedule_time'')"
    by (simp add: bad_time_form_def truthy_def)
  show ?thesis
    using input_errors_leave_state_unchanged[of "Some ''token''" ?req "''hi''" "''multiple''" "''7, 2''"
        "''scheduled''" "(demo_store, [] :: send_request list)" "explicit_ids ''7, 2''" "''tomorrow''" demo_world, OF _ _ _ _ _ _ d h]
    by (simp add: t truthy_def bad_time_form_def)
qed

text \<open>
  C8. The lookup by tag at a concrete directory: Ann has the tag \<^verbatim>\<open>team_a\<close>, Bob the tag
  \<^verbatim>\<open>team-a\<close>. Asking for \<^verbatim>\<open>team_a\<close> returns both, because \<^verbatim>\<open>_\<close> in the pasted
  pattern matches any character: Bob is returned although his tags do not contain the tag
  asked for.
\<close>

theorem tag_lookup_wildcard_false_positive:
  "u_tags (telegram_users demo_directory ! 1) = json_dumps [''team-a'']
   \<and> get_users_by_tag ''team_a'' demo_directory = Some [''1'', ''2'']"
  by (simp add: demo_directory_def add_user_def demo_db_def get_users_by_tag_def json_dumps_def
      json_dumps_str_def json_escape_def ascii_lower_def next_rowid_def)

section \<open>The explicit id list\<close>

lemma isspace_chars: "\<not> isspace CHR '',''" "isspace CHR 0x0D" "isspace CHR 0x0A"
  by (simp_all add: isspace_def)

lemma strip_cons_space: "isspace c \<Longrightarrow> strip (c # t) = strip t"
  by (simp add: strip_def)

lemma strip_snoc_space:
  assumes "isspace c"
  shows "strip (t @ [c]) = strip t"
proof (cases "\<forall>x\<in>set t. isspace x")
  case True
  have a: "dropWhile isspace t = []"
    by (rule iffD2[OF dropWhile_eq_Nil_conv True])
  have "dropWhile isspace (t @ [c]) = dropWhile isspace [c]"
    using True by (intro dropWhile_append2) simp
  then have b: "dropWhile isspace (t @ [c]) = []"
    using assms by simp
  show ?thesis by (simp add: strip_def a b)
next
  case False
  then obtain x where "x \<in> set t" "\<not> isspace x" by blast
  then have "dropWhile isspace (t @ [c]) = dropWhile isspace t @ [c]"
    by (rule dropWhile_append1)
  then show ?thesis using assms by (simp add: strip_def)
qed

lemma split_comma_nonempty: "split_comma s \<noteq> []"
  by (induction s) auto

lemma split_comma_snoc:
  "c \<noteq> CHR '','' \<Longrightarrow> split_comma (s @ [c]) = butlast (split_comma s) @ [last (split_comma s) @ [c]]"
proof (induction s)
  case Nil
  then show ?case by simp
next
  case (Cons a s)
  obtain t ts where ts: "split_comma s = t # ts"
    using split_comma_nonempty[of s] by (cases "split_comma s") auto
  show ?case
    using Cons ts by (cases ts) auto
qed

lemma split_comma_snoc_comma: "split_comma (s @ '','') = split_comma s @ [[]]"
proof (induction s)
  case Nil
  show ?case by simp
next
  case (Cons a s)
  obtain t ts where ts: "split_comma s = t # ts"
    using split_comma_nonempty[of s] by (cases "split_comma s") auto
  show ?case using Cons ts by auto
qed

lemma trimmed_cons_space: "isspace c \<Longrightarrow> trimmed (c # x) = trimmed x"
proof -
  assume c: "isspace c"
  then have "c \<noteq> CHR '',''" using isspace_chars(1) by auto
  obtain t ts where ts: "split_comma x = t # ts"
    using split_comma_nonempty[of x] by (cases "split_comma x") auto
  show ?thesis
    using \<open>c \<noteq> CHR '',''\<close> ts strip_cons_space[OF c] by (simp add: trimmed_def)
qed

lemma trimmed_cons_comma: "trimmed (CHR '','' # x) = trimmed x"
  by (simp add: trimmed_def strip_Nil)

lemma trimmed_snoc_space: "isspace c \<Longrightarrow> trimmed (x @ [c]) = trimmed x"
proof -
  assume c: "isspace c"
  then have n: "c \<noteq> CHR '',''" using isspace_chars(1) by auto
  have ne: "split_comma x \<noteq> []" by (rule split_comma_nonempty)
  have "map strip (butlast (split_comma x) @ [last (split_comma x) @ [c]])
      = map strip (butlast (split_comma x) @ [last (split_comma x)])"
    using strip_snoc_space[OF c] by simp
  also have "\<dots> = map strip (split_comma x)"
    using ne by simp
  finally show ?thesis
    by (simp add: trimmed_def split_comma_snoc[OF n])
qed

lemma trimmed_snoc_comma: "trimmed (x @ '','') = trimmed x"
  by (simp add: trimmed_def split_comma_snoc_comma strip_Nil)

lemma replace_crlf_cons:
  "\<not> (c = CHR 0x0D \<and> (\<exists>s'. s = CHR 0x0A # s')) \<Longrightarrow> replace_crlf (c # s) = c # replace_crlf s"
  by (cases s) auto

lemma replace_crlf_snoc:
  "c \<noteq> CHR 0x0A \<Longrightarrow> replace_crlf (s @ [c]) = replace_crlf s @ [c]"
  by (induction s rule: replace_crlf.induct) auto

lemma replace_crlf_snoc_lf:
  "s = [] \<or> last s \<noteq> CHR 0x0D \<Longrightarrow> replace_crlf (s @ [CHR 0x0A]) = replace_crlf s @ [CHR 0x0A]"
  by (induction s rule: replace_crlf.induct) (auto split: if_splits)

lemma replace_crlf_snoc_crlf:
  "replace_crlf (s @ [CHR 0x0D, CHR 0x0A]) = replace_crlf s @ '',''"
  by (induction s rule: replace_crlf.induct) auto

lemma explicit_ids_trimmed: "explicit_ids s = trimmed (replace_crlf s)"
  by (simp add: explicit_ids_def trimmed_def filter_map comp_def)

lemma explicit_ids_cons_space:
  assumes "isspace c"
  shows "explicit_ids (c # s) = explicit_ids s"
proof (cases "c = CHR 0x0D \<and> (\<exists>s'. s = CHR 0x0A # s')")
  case True
  then obtain s' where s: "s = CHR 0x0A # s'" and c: "c = CHR 0x0D" by auto
  have "explicit_ids (c # s) = trimmed (replace_crlf s')"
    unfolding explicit_ids_trimmed s c by (simp add: trimmed_cons_comma)
  moreover have "replace_crlf (CHR 0x0A # s') = CHR 0x0A # replace_crlf s'"
    by (rule replace_crlf_cons) simp
  then have "explicit_ids s = trimmed (replace_crlf s')"
    unfolding explicit_ids_trimmed s using trimmed_cons_space[OF isspace_chars(3)] by simp
  ultimately show ?thesis by simp
next
  case False
  then show ?thesis
    unfolding explicit_ids_trimmed using replace_crlf_cons[of c s] trimmed_cons_space[OF assms]
    by simp
qed

lemma explicit_ids_snoc_space:
  assumes "isspace c"
  shows "explicit_ids (s @ [c]) = explicit_ids s"
proof (cases "c = CHR 0x0A")
  case False
  then show ?thesis
    unfolding explicit_ids_trimmed using replace_crlf_snoc[of c s] trimmed_snoc_space[OF assms]
    by simp
next
  case lf: True
  show ?thesis
  proof (cases "s = [] \<or> last s \<noteq> CHR 0x0D")
    case True
    then show ?thesis
      unfolding explicit_ids_trimmed lf
      using replace_crlf_snoc_lf[of s] trimmed_snoc_space[OF isspace_chars(3)] by simp
  next
    case False
    then obtain s' where s: "s = s' @ [CHR 0x0D]"
      by (metis append_butlast_last_id)
    have a: "explicit_ids (s @ [c]) = trimmed (replace_crlf s')"
      unfolding explicit_ids_trimmed lf s
      using replace_crlf_snoc_crlf[of s'] trimmed_snoc_comma by simp
    have "replace_crlf (s' @ [CHR 0x0D]) = replace_crlf s' @ [CHR 0x0D]"
      by (rule replace_crlf_snoc) simp
    then have b: "explicit_ids s = trimmed (replace_crlf s')"
      unfolding explicit_ids_trimmed s using trimmed_snoc_space[OF isspace_chars(2)] by simp
    from a b show ?thesis by simp
  qed
qed

lemma explicit_ids_lstrip: "explicit_ids (dropWhile isspace s) = explicit_ids s"
  by (induction s) (simp_all add: explicit_ids_cons_space)

lemma explicit_ids_rstrip: "explicit_ids (rev (dropWhile isspace (rev s))) = explicit_ids s"
  by (induction s rule: rev_induct) (simp_all add: explicit_ids_snoc_space)

lemma explicit_ids_strip: "explicit_ids (strip s) = explicit_ids s"
  unfolding strip_def by (simp add: explicit_ids_rstrip explicit_ids_lstrip)

lemma split_comma_replace_crlf: "split_comma (replace_crlf s) = split_comma_crlf s"
  by (induction s rule: replace_crlf.induct) auto

lemma explicit_ids_tokens: "explicit_ids s = tokens_comma_crlf s"
  by (simp add: explicit_ids_trimmed trimmed_def tokens_comma_crlf_def split_comma_replace_crlf)

text \<open>
  What line 212 computes, for every text of the id field: the tokens between commas and
  carriage return, line feed pairs, each trimmed, the empty ones dropped, in their order
  and with their repeats.
\<close>

lemma explicit_ids_are_comma_crlf_tokens:
  "determine_recipients ''multiple'' (strip target_ids) form db = Inr (tokens_comma_crlf target_ids)"
proof (cases "strip target_ids = []")
  case True
  have "tokens_comma_crlf target_ids = explicit_ids target_ids"
    by (rule explicit_ids_tokens[symmetric])
  also have "\<dots> = explicit_ids (strip target_ids)"
    by (rule explicit_ids_strip[symmetric])
  also have "\<dots> = []"
    unfolding True by (simp add: explicit_ids_def strip_Nil)
  finally show ?thesis
    using True by (simp add: determine_recipients_def)
next
  case False
  have "explicit_ids (strip target_ids) = tokens_comma_crlf target_ids"
    unfolding explicit_ids_strip by (rule explicit_ids_tokens)
  then show ?thesis
    using False by (simp add: determine_recipients_def)
qed

text \<open>
  C9. The id field with the ids 1 and 2 on two lines, the line break being a line feed
  alone: split at commas and newlines these are the two ids 1 and 2; the code resolves one
  recipient, the text with the line feed inside, because only the pair carriage return,
  line feed is replaced by a comma.
\<close>

theorem lone_line_feed_stays_inside_id:
  "spec_explicit_ids [CHR ''1'', CHR 0x0A, CHR ''2''] = [''1'', ''2'']
   \<and> determine_recipients ''multiple'' (strip [CHR ''1'', CHR 0x0A, CHR ''2'']) Map.empty (demo_db [])
       = Inr [[CHR ''1'', CHR 0x0A, CHR ''2'']]"
  by (simp add: spec_explicit_ids_def determine_recipients_def explicit_ids_def strip_def isspace_def)

end
